theory Spec2Isabelle
  imports Main "HOL-Library.Word"
begin

section \<open>Files.arrange_files (src/files.py)\<close>

text \<open>
  A Python \<open>str\<close> is a sequence of Unicode code points: a name is the list of its code
  points, and \<open>ascii\<close> gives the code points of an ASCII literal.

  The directory \<open>self.folder_directory\<close> is modelled by its content: an association list
  from entry names to nodes, in the order \<open>os.listdir\<close> reports them. A node is a regular
  file (with its content) or a directory (with its own entries). Paths are those of POSIX.
  A raised exception is the left summand, paired with the directory as the exception
  leaves it.
\<close>

type_synonym unicode = "int list"

definition ascii :: "string \<Rightarrow> unicode" where
  "ascii s = map of_char s"

datatype node = File string | Dir "(unicode \<times> node) list"

type_synonym folder = "(unicode \<times> node) list"

text \<open>
  The exceptions of the run, and \<open>SeveralComponents\<close>, which is no exception of Python:
  it marks a name with a separator, a path of several components that leads below or
  outside the entries of the directory, where this model does not follow it.
\<close>

datatype error =
  FileExistsError | FileNotFoundError | ShutilError | ValueError | SeveralComponents

type_synonym result = "(error \<times> folder) + folder"

definition listdir :: "folder \<Rightarrow> unicode list" where
  "listdir fs = map fst fs"

definition remove_entry :: "unicode \<Rightarrow> folder \<Rightarrow> folder" where
  "remove_entry name fs = filter (\<lambda>kv. fst kv \<noteq> name) fs"

definition replace_entry :: "unicode \<Rightarrow> node \<Rightarrow> folder \<Rightarrow> folder" where
  "replace_entry name n fs = map (\<lambda>kv. if fst kv = name then (name, n) else kv) fs"

text \<open>
  \<open>os.makedirs(os.path.join(self.folder_directory, name))\<close>. For the empty name,
  \<open>.\<close> and \<open>..\<close> the path is the directory itself or its parent, which exist, and
  for the name of an entry the path exists, as a file or as a directory: FileExistsError.
  A name with the separator \<open>/\<close> is not followed. A name with the null character
  raises ValueError. Any other name is one path component: the directory gets one more
  entry, an empty directory.
\<close>

definition makedirs :: "folder \<Rightarrow> unicode \<Rightarrow> error + folder" where
  "makedirs fs name =
     (if name = [] \<or> name = ascii ''.'' \<or> name = ascii ''..'' then Inl FileExistsError
      else if name \<in> set (listdir fs) then Inl FileExistsError
      else if 47 \<in> set name then Inl SeveralComponents
      else if 0 \<in> set name then Inl ValueError
      else Inr (fs @ [(name, Dir [])]))"

text \<open>
  \<open>shutil.move(src, dst)\<close> for two entries of the directory. When \<open>dst\<close> is an existing
  directory: the same path as \<open>src\<close> is renamed onto itself (nothing changes); an entry of
  \<open>dst\<close> with the name of \<open>src\<close> raises \<open>shutil.Error\<close>; otherwise \<open>src\<close> is moved
  into \<open>dst\<close>. When \<open>dst\<close> is an existing regular file, \<open>os.rename\<close> replaces it by a
  regular file \<open>src\<close> and fails for a directory \<open>src\<close> (the fallback \<open>copytree\<close> then
  raises FileExistsError). When \<open>dst\<close> does not exist, \<open>src\<close> is renamed to \<open>dst\<close>.
\<close>

definition shutil_move :: "folder \<Rightarrow> unicode \<Rightarrow> unicode \<Rightarrow> error + folder" where
  "shutil_move fs src dst =
     (case map_of fs dst of
        Some (Dir cs) \<Rightarrow>
          if src = dst then Inr fs
          else if src \<in> set (listdir cs) then Inl ShutilError
          else (case map_of fs src of
                  None \<Rightarrow> Inl FileNotFoundError
                | Some n \<Rightarrow> Inr (replace_entry dst (Dir (cs @ [(src, n)])) (remove_entry src fs)))
      | Some (File c) \<Rightarrow>
          (case map_of fs src of
             None \<Rightarrow> Inl FileNotFoundError
           | Some (File c') \<Rightarrow>
               if src = dst then Inr fs
               else Inr (replace_entry dst (File c') (remove_entry src fs))
           | Some (Dir cs) \<Rightarrow> Inl FileExistsError)
      | None \<Rightarrow>
          (case map_of fs src of
             None \<Rightarrow> Inl FileNotFoundError
           | Some n \<Rightarrow> Inr (remove_entry src fs @ [(dst, n)])))"

text \<open>\<open>x[-4:]\<close>: the last four code points, the whole name when it is shorter.\<close>

definition last4 :: "unicode \<Rightarrow> unicode" where
  "last4 x = drop (length x - 4) x"

text \<open>\<open>re.search("^[.]", y)\<close>: the string starts with a dot, code point 46.\<close>

definition starts_with_dot :: "unicode \<Rightarrow> bool" where
  "starts_with_dot y = (case y of [] \<Rightarrow> False | c # _ \<Rightarrow> c = 46)"

text \<open>
  \<open>str.isalpha\<close>: at least one code point, and letters only. A letter is a code point
  of the general categories Lu, Ll, Lt, Lm and Lo: the ranges below are those of the
  Unicode database 14.0.0 (the one of CPython 3.11), first and last code point of each.
\<close>

definition unicode_letters :: "(int \<times> int) list" where
  "unicode_letters =
    [(65, 90), (97, 122), (170, 170), (181, 181), (186, 186), (192, 214), (216, 246),
     (248, 705), (710, 721), (736, 740), (748, 748), (750, 750), (880, 884), (886, 887),
     (890, 893), (895, 895), (902, 902), (904, 906), (908, 908), (910, 929), (931, 1013),
     (1015, 1153), (1162, 1327), (1329, 1366), (1369, 1369), (1376, 1416), (1488, 1514),
     (1519, 1522), (1568, 1610), (1646, 1647), (1649, 1747), (1749, 1749), (1765, 1766),
     (1774, 1775), (1786, 1788), (1791, 1791), (1808, 1808), (1810, 1839), (1869, 1957),
     (1969, 1969), (1994, 2026), (2036, 2037), (2042, 2042), (2048, 2069), (2074, 2074),
     (2084, 2084), (2088, 2088), (2112, 2136), (2144, 2154), (2160, 2183), (2185, 2190),
     (2208, 2249), (2308, 2361), (2365, 2365), (2384, 2384), (2392, 2401), (2417, 2432),
     (2437, 2444), (2447, 2448), (2451, 2472), (2474, 2480), (2482, 2482), (2486, 2489),
     (2493, 2493), (2510, 2510), (2524, 2525), (2527, 2529), (2544, 2545), (2556, 2556),
     (2565, 2570), (2575, 2576), (2579, 2600), (2602, 2608), (2610, 2611), (2613, 2614),
     (2616, 2617), (2649, 2652), (2654, 2654), (2674, 2676), (2693, 2701), (2703, 2705),
     (2707, 2728), (2730, 2736), (2738, 2739), (2741, 2745), (2749, 2749), (2768, 2768),
     (2784, 2785), (2809, 2809), (2821, 2828), (2831, 2832), (2835, 2856), (2858, 2864),
     (2866, 2867), (2869, 2873), (2877, 2877), (2908, 2909), (2911, 2913), (2929, 2929),
     (2947, 2947), (2949, 2954), (2958, 2960), (2962, 2965), (2969, 2970), (2972, 2972),
     (2974, 2975), (2979, 2980), (2984, 2986), (2990, 3001), (3024, 3024), (3077, 3084),
     (3086, 3088), (3090, 3112), (3114, 3129), (3133, 3133), (3160, 3162), (3165, 3165),
     (3168, 3169), (3200, 3200), (3205, 3212), (3214, 3216), (3218, 3240), (3242, 3251),
     (3253, 3257), (3261, 3261), (3293, 3294), (3296, 3297), (3313, 3314), (3332, 3340),
     (3342, 3344), (3346, 3386), (3389, 3389), (3406, 3406), (3412, 3414), (3423, 3425),
     (3450, 3455), (3461, 3478), (3482, 3505), (3507, 3515), (3517, 3517), (3520, 3526),
     (3585, 3632), (3634, 3635), (3648, 3654), (3713, 3714), (3716, 3716), (3718, 3722),
     (3724, 3747), (3749, 3749), (3751, 3760), (3762, 3763), (3773, 3773), (3776, 3780),
     (3782, 3782), (3804, 3807), (3840, 3840), (3904, 3911), (3913, 3948), (3976, 3980),
     (4096, 4138), (4159, 4159), (4176, 4181), (4186, 4189), (4193, 4193), (4197, 4198),
     (4206, 4208), (4213, 4225), (4238, 4238), (4256, 4293), (4295, 4295), (4301, 4301),
     (4304, 4346), (4348, 4680), (4682, 4685), (4688, 4694), (4696, 4696), (4698, 4701),
     (4704, 4744), (4746, 4749), (4752, 4784), (4786, 4789), (4792, 4798), (4800, 4800),
     (4802, 4805), (4808, 4822), (4824, 4880), (4882, 4885), (4888, 4954), (4992, 5007),
     (5024, 5109), (5112, 5117), (5121, 5740), (5743, 5759), (5761, 5786), (5792, 5866),
     (5873, 5880), (5888, 5905), (5919, 5937), (5952, 5969), (5984, 5996), (5998, 6000),
     (6016, 6067), (6103, 6103), (6108, 6108), (6176, 6264), (6272, 6276), (6279, 6312),
     (6314, 6314), (6320, 6389), (6400, 6430), (6480, 6509), (6512, 6516), (6528, 6571),
     (6576, 6601), (6656, 6678), (6688, 6740), (6823, 6823), (6917, 6963), (6981, 6988),
     (7043, 7072), (7086, 7087), (7098, 7141), (7168, 7203), (7245, 7247), (7258, 7293),
     (7296, 7304), (7312, 7354), (7357, 7359), (7401, 7404), (7406, 7411), (7413, 7414),
     (7418, 7418), (7424, 7615), (7680, 7957), (7960, 7965), (7968, 8005), (8008, 8013),
     (8016, 8023), (8025, 8025), (8027, 8027), (8029, 8029), (8031, 8061), (8064, 8116),
     (8118, 8124), (8126, 8126), (8130, 8132), (8134, 8140), (8144, 8147), (8150, 8155),
     (8160, 8172), (8178, 8180), (8182, 8188), (8305, 8305), (8319, 8319), (8336, 8348),
     (8450, 8450), (8455, 8455), (8458, 8467), (8469, 8469), (8473, 8477), (8484, 8484),
     (8486, 8486), (8488, 8488), (8490, 8493), (8495, 8505), (8508, 8511), (8517, 8521),
     (8526, 8526), (8579, 8580), (11264, 11492), (11499, 11502), (11506, 11507),
     (11520, 11557), (11559, 11559), (11565, 11565), (11568, 11623), (11631, 11631),
     (11648, 11670), (11680, 11686), (11688, 11694), (11696, 11702), (11704, 11710),
     (11712, 11718), (11720, 11726), (11728, 11734), (11736, 11742), (11823, 11823),
     (12293, 12294), (12337, 12341), (12347, 12348), (12353, 12438), (12445, 12447),
     (12449, 12538), (12540, 12543), (12549, 12591), (12593, 12686), (12704, 12735),
     (12784, 12799), (13312, 19903), (19968, 42124), (42192, 42237), (42240, 42508),
     (42512, 42527), (42538, 42539), (42560, 42606), (42623, 42653), (42656, 42725),
     (42775, 42783), (42786, 42888), (42891, 42954), (42960, 42961), (42963, 42963),
     (42965, 42969), (42994, 43009), (43011, 43013), (43015, 43018), (43020, 43042),
     (43072, 43123), (43138, 43187), (43250, 43255), (43259, 43259), (43261, 43262),
     (43274, 43301), (43312, 43334), (43360, 43388), (43396, 43442), (43471, 43471),
     (43488, 43492), (43494, 43503), (43514, 43518), (43520, 43560), (43584, 43586),
     (43588, 43595), (43616, 43638), (43642, 43642), (43646, 43695), (43697, 43697),
     (43701, 43702), (43705, 43709), (43712, 43712), (43714, 43714), (43739, 43741),
     (43744, 43754), (43762, 43764), (43777, 43782), (43785, 43790), (43793, 43798),
     (43808, 43814), (43816, 43822), (43824, 43866), (43868, 43881), (43888, 44002),
     (44032, 55203), (55216, 55238), (55243, 55291), (63744, 64109), (64112, 64217),
     (64256, 64262), (64275, 64279), (64285, 64285), (64287, 64296), (64298, 64310),
     (64312, 64316), (64318, 64318), (64320, 64321), (64323, 64324), (64326, 64433),
     (64467, 64829), (64848, 64911), (64914, 64967), (65008, 65019), (65136, 65140),
     (65142, 65276), (65313, 65338), (65345, 65370), (65382, 65470), (65474, 65479),
     (65482, 65487), (65490, 65495), (65498, 65500), (65536, 65547), (65549, 65574),
     (65576, 65594), (65596, 65597), (65599, 65613), (65616, 65629), (65664, 65786),
     (66176, 66204), (66208, 66256), (66304, 66335), (66349, 66368), (66370, 66377),
     (66384, 66421), (66432, 66461), (66464, 66499), (66504, 66511), (66560, 66717),
     (66736, 66771), (66776, 66811), (66816, 66855), (66864, 66915), (66928, 66938),
     (66940, 66954), (66956, 66962), (66964, 66965), (66967, 66977), (66979, 66993),
     (66995, 67001), (67003, 67004), (67072, 67382), (67392, 67413), (67424, 67431),
     (67456, 67461), (67463, 67504), (67506, 67514), (67584, 67589), (67592, 67592),
     (67594, 67637), (67639, 67640), (67644, 67644), (67647, 67669), (67680, 67702),
     (67712, 67742), (67808, 67826), (67828, 67829), (67840, 67861), (67872, 67897),
     (67968, 68023), (68030, 68031), (68096, 68096), (68112, 68115), (68117, 68119),
     (68121, 68149), (68192, 68220), (68224, 68252), (68288, 68295), (68297, 68324),
     (68352, 68405), (68416, 68437), (68448, 68466), (68480, 68497), (68608, 68680),
     (68736, 68786), (68800, 68850), (68864, 68899), (69248, 69289), (69296, 69297),
     (69376, 69404), (69415, 69415), (69424, 69445), (69488, 69505), (69552, 69572),
     (69600, 69622), (69635, 69687), (69745, 69746), (69749, 69749), (69763, 69807),
     (69840, 69864), (69891, 69926), (69956, 69956), (69959, 69959), (69968, 70002),
     (70006, 70006), (70019, 70066), (70081, 70084), (70106, 70106), (70108, 70108),
     (70144, 70161), (70163, 70187), (70272, 70278), (70280, 70280), (70282, 70285),
     (70287, 70301), (70303, 70312), (70320, 70366), (70405, 70412), (70415, 70416),
     (70419, 70440), (70442, 70448), (70450, 70451), (70453, 70457), (70461, 70461),
     (70480, 70480), (70493, 70497), (70656, 70708), (70727, 70730), (70751, 70753),
     (70784, 70831), (70852, 70853), (70855, 70855), (71040, 71086), (71128, 71131),
     (71168, 71215), (71236, 71236), (71296, 71338), (71352, 71352), (71424, 71450),
     (71488, 71494), (71680, 71723), (71840, 71903), (71935, 71942), (71945, 71945),
     (71948, 71955), (71957, 71958), (71960, 71983), (71999, 71999), (72001, 72001),
     (72096, 72103), (72106, 72144), (72161, 72161), (72163, 72163), (72192, 72192),
     (72203, 72242), (72250, 72250), (72272, 72272), (72284, 72329), (72349, 72349),
     (72368, 72440), (72704, 72712), (72714, 72750), (72768, 72768), (72818, 72847),
     (72960, 72966), (72968, 72969), (72971, 73008), (73030, 73030), (73056, 73061),
     (73063, 73064), (73066, 73097), (73112, 73112), (73440, 73458), (73648, 73648),
     (73728, 74649), (74880, 75075), (77712, 77808), (77824, 78894), (82944, 83526),
     (92160, 92728), (92736, 92766), (92784, 92862), (92880, 92909), (92928, 92975),
     (92992, 92995), (93027, 93047), (93053, 93071), (93760, 93823), (93952, 94026),
     (94032, 94032), (94099, 94111), (94176, 94177), (94179, 94179), (94208, 100343),
     (100352, 101589), (101632, 101640), (110576, 110579), (110581, 110587),
     (110589, 110590), (110592, 110882), (110928, 110930), (110948, 110951),
     (110960, 111355), (113664, 113770), (113776, 113788), (113792, 113800),
     (113808, 113817), (119808, 119892), (119894, 119964), (119966, 119967),
     (119970, 119970), (119973, 119974), (119977, 119980), (119982, 119993),
     (119995, 119995), (119997, 120003), (120005, 120069), (120071, 120074),
     (120077, 120084), (120086, 120092), (120094, 120121), (120123, 120126),
     (120128, 120132), (120134, 120134), (120138, 120144), (120146, 120485),
     (120488, 120512), (120514, 120538), (120540, 120570), (120572, 120596),
     (120598, 120628), (120630, 120654), (120656, 120686), (120688, 120712),
     (120714, 120744), (120746, 120770), (120772, 120779), (122624, 122654),
     (123136, 123180), (123191, 123197), (123214, 123214), (123536, 123565),
     (123584, 123627), (124896, 124902), (124904, 124907), (124909, 124910),
     (124912, 124926), (124928, 125124), (125184, 125251), (125259, 125259),
     (126464, 126467), (126469, 126495), (126497, 126498), (126500, 126500),
     (126503, 126503), (126505, 126514), (126516, 126519), (126521, 126521),
     (126523, 126523), (126530, 126530), (126535, 126535), (126537, 126537),
     (126539, 126539), (126541, 126543), (126545, 126546), (126548, 126548),
     (126551, 126551), (126553, 126553), (126555, 126555), (126557, 126557),
     (126559, 126559), (126561, 126562), (126564, 126564), (126567, 126570),
     (126572, 126578), (126580, 126583), (126585, 126588), (126590, 126590),
     (126592, 126601), (126603, 126619), (126625, 126627), (126629, 126633),
     (126635, 126651), (131072, 173791), (173824, 177976), (177984, 178205),
     (178208, 183969), (183984, 191456), (194560, 195101), (196608, 201546)]"

definition is_letter :: "int \<Rightarrow> bool" where
  "is_letter c = list_ex (\<lambda>r. fst r \<le> c \<and> c \<le> snd r) unicode_letters"

definition isalpha :: "unicode \<Rightarrow> bool" where
  "isalpha s = (s \<noteq> [] \<and> list_all is_letter s)"

text \<open>
  Lines 46 to 51: the loop over \<open>lst_file_ext\<close> that removes from the list it iterates.
  Python's list iterator keeps an index \<open>i\<close>: each round reads \<open>lst_file_ext[i]\<close> while
  \<open>i < len(lst_file_ext)\<close> and moves to \<open>i + 1\<close>, whatever the body did to the list;
  \<open>list.remove\<close> deletes the first element equal to its argument.
\<close>

function remove_non_alpha :: "unicode list \<Rightarrow> nat \<Rightarrow> unicode list" where
  "remove_non_alpha lst_file_ext i =
     (if i < length lst_file_ext then
        (if isalpha (drop 1 (lst_file_ext ! i)) then remove_non_alpha lst_file_ext (Suc i)
         else remove_non_alpha (remove1 (lst_file_ext ! i) lst_file_ext) (Suc i))
      else lst_file_ext)"
  by pat_completeness auto
termination
  by (relation "measure (\<lambda>(xs, i). length xs - i)") (auto simp: length_remove1)

declare remove_non_alpha.simps [simp del]

text \<open>Lines 42 to 54: the extension tokens of a listing. \<open>list(set(...))\<close> keeps one
  copy of each element, in an order Python does not fix; the model keeps the order of
  \<open>remdups\<close>.\<close>

definition file_exts :: "unicode list \<Rightarrow> unicode list" where
  "file_exts lst_files =
     (let lst_file_end = map last4 lst_files;
          lst_file_ext = filter starts_with_dot lst_file_end
      in remdups (remove_non_alpha lst_file_ext 0))"

text \<open>Lines 56 to 60: one directory per token, FileExistsError caught.\<close>

fun make_ext_folders :: "unicode list \<Rightarrow> folder \<Rightarrow> result" where
  "make_ext_folders [] fs = Inr fs"
| "make_ext_folders (folder # rest) fs =
     (case makedirs fs folder of
        Inl e \<Rightarrow> if e = FileExistsError then make_ext_folders rest fs else Inl (e, fs)
      | Inr fs' \<Rightarrow> make_ext_folders rest fs')"

text \<open>Lines 62 to 65: every listed entry is moved into the directory of its suffix.\<close>

fun move_to_ext :: "unicode \<Rightarrow> unicode list \<Rightarrow> folder \<Rightarrow> result" where
  "move_to_ext file [] fs = Inr fs"
| "move_to_ext file (file_ext # rest) fs =
     (if last4 file = file_ext then
        (case shutil_move fs file file_ext of
           Inl e \<Rightarrow> Inl (e, fs)
         | Inr fs' \<Rightarrow> move_to_ext file rest fs')
      else move_to_ext file rest fs)"

fun move_files :: "unicode list \<Rightarrow> unicode list \<Rightarrow> folder \<Rightarrow> result" where
  "move_files [] lst_file_ext fs = Inr fs"
| "move_files (file # rest) lst_file_ext fs =
     (case move_to_ext file lst_file_ext fs of
        Inl r \<Rightarrow> Inl r
      | Inr fs' \<Rightarrow> move_files rest lst_file_ext fs')"

text \<open>Lines 71 and 72: the rest is moved to the entry \<open>"others"\<close>, the literal of line 72.\<close>

fun move_misc :: "unicode list \<Rightarrow> folder \<Rightarrow> result" where
  "move_misc [] fs = Inr fs"
| "move_misc (misc_file # rest) fs =
     (case shutil_move fs misc_file (ascii ''others'') of
        Inl e \<Rightarrow> Inl (e, fs)
      | Inr fs' \<Rightarrow> move_misc rest fs')"

text \<open>Lines 36 to 72. The handler of lines 38 to 40 raises FileExistsError again; any
  other exception of \<open>os.makedirs\<close> leaves the method as it is.\<close>

definition arrange_files :: "folder \<Rightarrow> unicode \<Rightarrow> result" where
  "arrange_files folder_directory misc_folder_name =
     (case makedirs folder_directory misc_folder_name of
        Inl e \<Rightarrow> Inl (e, folder_directory)
      | Inr fs1 \<Rightarrow>
          (let lst_files = listdir fs1;
               lst_file_ext = file_exts lst_files
           in case make_ext_folders lst_file_ext fs1 of
                Inl r \<Rightarrow> Inl r
              | Inr fs2 \<Rightarrow>
                  (case move_files lst_files lst_file_ext fs2 of
                     Inl r \<Rightarrow> Inl r
                   | Inr fs3 \<Rightarrow>
                       (let lst_all_files = listdir fs3;
                            lst_misc_files = filter (\<lambda>x. x \<notin> set lst_file_ext) lst_all_files
                        in move_misc lst_misc_files fs3))))"

subsection \<open>Notions used in the proofs\<close>

text \<open>\<open>os.path.isfile\<close> of an entry of the directory.\<close>

definition isfile :: "folder \<Rightarrow> unicode \<Rightarrow> bool" where
  "isfile fs name = (case map_of fs name of Some (File c) \<Rightarrow> True | _ \<Rightarrow> False)"

text \<open>A name that is one path component, as every name \<open>os.listdir\<close> reports is.\<close>

definition component :: "unicode \<Rightarrow> bool" where
  "component name \<longleftrightarrow>
     name \<noteq> [] \<and> name \<noteq> ascii ''.'' \<and> name \<noteq> ascii ''..''
     \<and> 47 \<notin> set name \<and> 0 \<notin> set name"

text \<open>A sequence of moves, each a source and a destination, stopped by the first
  exception: what both loops of moves come to.\<close>

fun moves :: "(unicode \<times> unicode) list \<Rightarrow> folder \<Rightarrow> result" where
  "moves [] fs = Inr fs"
| "moves (m # rest) fs =
     (case shutil_move fs (fst m) (snd m) of
        Inl e \<Rightarrow> Inl (e, fs)
      | Inr fs' \<Rightarrow> moves rest fs')"

text \<open>The moves of lines 62 to 65: the listed entries whose suffix is a token.\<close>

definition ext_moves :: "unicode list \<Rightarrow> unicode list \<Rightarrow> (unicode \<times> unicode) list" where
  "ext_moves lst_files lst_file_ext =
     map (\<lambda>file. (file, last4 file)) (filter (\<lambda>file. last4 file \<in> set lst_file_ext) lst_files)"

text \<open>When a sequence of moves goes through.\<close>

definition moves_ready :: "(unicode \<times> unicode) list \<Rightarrow> folder \<Rightarrow> bool" where
  "moves_ready ms s \<longleftrightarrow>
     distinct (map fst ms)
   \<and> (\<forall>d \<in> snd ` set ms. \<exists>cs. map_of s d = Some (Dir cs)
          \<and> set (listdir cs) \<inter> fst ` set ms = {})
   \<and> (\<forall>f \<in> fst ` set ms. map_of s f \<noteq> None)
   \<and> (\<forall>m \<in> set ms. fst m \<in> snd ` set ms \<longrightarrow> fst m = snd m)"

text \<open>
  The directory of the specification's example: \<open>a.txt\<close>, \<open>b.txt\<close>, \<open>c.csv\<close> and
  \<open>readme\<close>, and none of \<open>others\<close>, \<open>txt\<close>, \<open>csv\<close>.
\<close>

definition example_directory :: folder where
  "example_directory =
     [(ascii ''a.txt'', File ''A''), (ascii ''b.txt'', File ''B''),
      (ascii ''c.csv'', File ''C''), (ascii ''readme'', File ''R'')]"

section \<open>convert_to_array (src/automation/utils.py)\<close>

text \<open>
  The classes the function tests for, and some it does not know. \<open>np.bool\<close> is the
  builtin \<open>bool\<close> and \<open>np.bool8\<close> is \<open>np.bool_\<close> (aliases of NumPy), and
  \<open>pd.core.series.Series\<close> is \<open>pd.Series\<close>.
\<close>

datatype pytype =
    T_NoneType | T_bool | T_int | T_float | T_complex | T_str | T_bytes
  | T_date | T_datetime
  | T_list | T_tuple | T_set | T_frozenset | T_dict | T_range
  | T_ndarray | T_Series | T_Index
  | T_np_bool | T_np_int8 | T_np_int16 | T_np_int32 | T_np_int64 | T_np_uint8
  | T_np_float16 | T_np_float32 | T_np_float64 | T_np_datetime64
  | T_class string

text \<open>
  The element type of an array: the day unit of \<open>"datetime64[D]"\<close>, a class handed over
  as \<open>dtype=type(x)\<close>, \<open>object\<close>, or the type NumPy infers when the call names none.
\<close>

datatype dtype = DT_datetime64_D | DT_type pytype | DT_object | DT_inferred

text \<open>
  Values. A Python \<open>float\<close> is its 64 bits and a fixed-width NumPy scalar is a word of its
  width. A date is year, month, day; a datetime adds hour, minute, second, microsecond. A
  \<open>np.datetime64\<close> is a calendar day and the nanoseconds past its midnight. Containers
  hold their elements in iteration order; a Series or an Index holds its \<open>values\<close> array
  (element type and elements). A \<open>str\<close> is the list of its code points and a
  \<open>bytes\<close> the list of its bytes. An array of two dimensions is given by its rows, each
  an array. \<open>PyObject c\<close> is an instance of another class \<open>c\<close>, one that is no
  sequence and offers no array interface.
\<close>

datatype pyval =
    PyNone
  | PyBool bool
  | PyInt int
  | PyFloat "64 word"
  | PyComplex "64 word" "64 word"
  | PyStr unicode
  | PyBytes string
  | PyDate nat nat nat
  | PyDatetime nat nat nat nat nat nat nat
  | PyList "pyval list"
  | PyTuple "pyval list"
  | PySet "pyval list"
  | PyFrozenset "pyval list"
  | PyDict "(pyval \<times> pyval) list"
  | PyRange int int int
  | NdArray dtype "pyval list"
  | PdSeries dtype "pyval list"
  | PdIndex dtype "pyval list"
  | NpBool bool
  | NpInt8 "8 word"
  | NpInt16 "16 word"
  | NpInt32 "32 word"
  | NpInt64 "64 word"
  | NpUInt8 "8 word"
  | NpFloat16 "16 word"
  | NpFloat32 "32 word"
  | NpFloat64 "64 word"
  | NpDatetime64 nat nat nat nat
  | PyObject string

datatype warning = UserWarning pytype

fun type_of :: "pyval \<Rightarrow> pytype" where
  "type_of PyNone = T_NoneType"
| "type_of (PyBool _) = T_bool"
| "type_of (PyInt _) = T_int"
| "type_of (PyFloat _) = T_float"
| "type_of (PyComplex _ _) = T_complex"
| "type_of (PyStr _) = T_str"
| "type_of (PyBytes _) = T_bytes"
| "type_of (PyDate _ _ _) = T_date"
| "type_of (PyDatetime _ _ _ _ _ _ _) = T_datetime"
| "type_of (PyList _) = T_list"
| "type_of (PyTuple _) = T_tuple"
| "type_of (PySet _) = T_set"
| "type_of (PyFrozenset _) = T_frozenset"
| "type_of (PyDict _) = T_dict"
| "type_of (PyRange _ _ _) = T_range"
| "type_of (NdArray _ _) = T_ndarray"
| "type_of (PdSeries _ _) = T_Series"
| "type_of (PdIndex _ _) = T_Index"
| "type_of (NpBool _) = T_np_bool"
| "type_of (NpInt8 _) = T_np_int8"
| "type_of (NpInt16 _) = T_np_int16"
| "type_of (NpInt32 _) = T_np_int32"
| "type_of (NpInt64 _) = T_np_int64"
| "type_of (NpUInt8 _) = T_np_uint8"
| "type_of (NpFloat16 _) = T_np_float16"
| "type_of (NpFloat32 _) = T_np_float32"
| "type_of (NpFloat64 _) = T_np_float64"
| "type_of (NpDatetime64 _ _ _ _) = T_np_datetime64"
| "type_of (PyObject c) = T_class c"

text \<open>The subclass relation among these classes: \<open>bool\<close> is an \<open>int\<close>, a
  \<open>datetime\<close> is a \<open>date\<close>, and \<open>np.float64\<close> inherits from \<open>float\<close>.\<close>

definition issubclass :: "pytype \<Rightarrow> pytype \<Rightarrow> bool" where
  "issubclass t u =
     (t = u \<or> (t = T_bool \<and> u = T_int) \<or> (t = T_datetime \<and> u = T_date)
      \<or> (t = T_np_float64 \<and> u = T_float))"

definition isinstance :: "pyval \<Rightarrow> pytype list \<Rightarrow> bool" where
  "isinstance x classes = list_ex (issubclass (type_of x)) classes"

text \<open>The one exception a round of the loop can end with.\<close>

datatype exception = OverflowError

text \<open>What the generator gives its consumer: the arrays yielded, in order, each with the
  warning raised just before it, if any; and the exception that ends the generator, if
  one does.\<close>

type_synonym yielded = "pyval \<times> warning option"

type_synonym generated = "yielded list \<times> exception option"

text \<open>\<open>np.array([x.strftime("%Y-%m-%d")], dtype="datetime64[D]")\<close>: the text holds the
  year, the month and the day of \<open>x\<close> and nothing else, and the array holds that day.\<close>

fun strftime_day :: "pyval \<Rightarrow> pyval list" where
  "strftime_day (PyDate y m d) = [NpDatetime64 y m d 0]"
| "strftime_day (PyDatetime y m d _ _ _ _) = [NpDatetime64 y m d 0]"
| "strftime_day _ = []"

text \<open>\<open>np.array(x)\<close> of a list or a tuple: its elements, in order (an element that is
  a sequence itself stands for the row NumPy makes of it).\<close>

fun np_array :: "pyval \<Rightarrow> pyval" where
  "np_array (PyList xs) = NdArray DT_inferred xs"
| "np_array (PyTuple xs) = NdArray DT_inferred xs"
| "np_array x = NdArray DT_inferred [x]"

text \<open>\<open>x.values\<close> of a Series or an Index.\<close>

fun values_of :: "pyval \<Rightarrow> pyval" where
  "values_of (PdSeries t xs) = NdArray t xs"
| "values_of (PdIndex t xs) = NdArray t xs"
| "values_of x = x"

text \<open>
  \<open>np.array([x], dtype=type(x))\<close>. For \<open>dtype=int\<close> the element is a C long, taken
  here as 64 bits wide: a Python \<open>int\<close> outside its range raises OverflowError.
\<close>

definition c_long :: "int \<Rightarrow> bool" where
  "c_long n \<longleftrightarrow> - (2 ^ 63) \<le> n \<and> n < 2 ^ 63"

definition np_array_of_type :: "pyval \<Rightarrow> exception + pyval" where
  "np_array_of_type x =
     (case x of
        PyInt n \<Rightarrow>
          if c_long n then Inr (NdArray (DT_type T_int) [x]) else Inl OverflowError
      | _ \<Rightarrow> Inr (NdArray (DT_type (type_of x)) [x]))"

text \<open>\<open>np.array([x], "datetime64[D]")\<close> of a \<open>np.datetime64\<close>: cast to the day unit.\<close>

fun datetime64_day :: "pyval \<Rightarrow> pyval" where
  "datetime64_day (NpDatetime64 y m d _) = NpDatetime64 y m d 0"
| "datetime64_day x = x"

text \<open>The elements of \<open>range(start, stop, step)\<close>; a step of zero makes no range.\<close>

definition range_items :: "int \<Rightarrow> int \<Rightarrow> int \<Rightarrow> int list" where
  "range_items start stop step =
     (if 0 < step then
        map (\<lambda>k. start + int k * step) [0..<nat ((stop - start + step - 1) div step)]
      else if step < 0 then
        map (\<lambda>k. start + int k * step) [0..<nat ((start - stop - step - 1) div (- step))]
      else [])"

text \<open>
  \<open>np.array([x], dtype=object)\<close>. NumPy unpacks an element that is a sequence: a range
  becomes the one row of an array of two dimensions. Any other value that reaches this
  call is stored as it is, the one element of the array.
\<close>

definition np_array_object :: "pyval \<Rightarrow> pyval" where
  "np_array_object x =
     (case x of
        PyRange start stop step \<Rightarrow>
          NdArray DT_object [NdArray DT_object (map PyInt (range_items start stop step))]
      | _ \<Rightarrow> NdArray DT_object [x])"

text \<open>A round that yields one array and raises nothing, and a round that yields the
  array a call to NumPy returns or ends with the exception the call raises.\<close>

definition yield :: "pyval \<Rightarrow> generated" where
  "yield a = ([(a, None)], None)"

definition yield_or_raise :: "exception + pyval \<Rightarrow> generated" where
  "yield_or_raise r = (case r of Inl e \<Rightarrow> ([], Some e) | Inr a \<Rightarrow> ([(a, None)], None))"

text \<open>
  The body of the loop, lines 75 to 102: what one round yields, and the exception that
  ends it, if any.
\<close>

definition convert_one :: "pyval \<Rightarrow> generated" where
  "convert_one x =
     (if isinstance x [T_date] then yield (NdArray DT_datetime64_D (strftime_day x))
      else if isinstance x [T_ndarray] then yield x
      else if isinstance x [T_list, T_tuple] then yield (np_array x)
      else if isinstance x [T_Series, T_Index, T_Series] then yield (values_of x)
      else if isinstance x [T_int, T_float, T_str, T_bool, T_np_bool]
        then yield_or_raise (np_array_of_type x)
      else if isinstance x [T_np_int8, T_np_int16, T_np_int32, T_np_int64]
        then yield_or_raise (np_array_of_type x)
      else if isinstance x [T_np_float16, T_np_float32, T_np_float64]
        then yield_or_raise (np_array_of_type x)
      else if isinstance x [T_bool, T_np_bool, T_np_bool]
        then yield_or_raise (np_array_of_type x)
      else if isinstance x [T_np_datetime64]
        then yield (NdArray DT_datetime64_D [datetime64_day x])
      else if x = PyNone then yield (NdArray DT_inferred [])
      else ([(np_array_object x, Some (UserWarning (type_of x)))], None))"

text \<open>The generator: the rounds of the loop in the order of the arguments, up to the
  first exception.\<close>

fun convert_to_array :: "pyval list \<Rightarrow> generated" where
  "convert_to_array [] = ([], None)"
| "convert_to_array (x # args) =
     (case convert_one x of
        (ys, Some e) \<Rightarrow> (ys, Some e)
      | (ys, None) \<Rightarrow> (case convert_to_array args of (zs, r) \<Rightarrow> (ys @ zs, r)))"

text \<open>A Python \<open>int\<close> that \<open>np.array\<close> cannot store as a C long.\<close>

definition overflows :: "pyval \<Rightarrow> bool" where
  "overflows x = (case x of PyInt n \<Rightarrow> \<not> c_long n | _ \<Rightarrow> False)"


section \<open>Properties of arrange_files\<close>

subsection \<open>Extension tokens\<close>

lemma last4_idem: "last4 (last4 x) = last4 x"
  by (simp add: last4_def)

lemma remove_non_alpha_subset: "set (remove_non_alpha xs i) \<subseteq> set xs"
proof (induction xs i rule: remove_non_alpha.induct)
  case (1 xs i)
  show ?case
  proof (cases "i < length xs")
    case False
    then show ?thesis by (simp add: remove_non_alpha.simps [of xs i])
  next
    case True
    note lt = this
    show ?thesis
    proof (cases "isalpha (drop 1 (xs ! i))")
      case True
      with lt 1(1) show ?thesis by (simp add: remove_non_alpha.simps [of xs i])
    next
      case False
      with lt 1(2) have "set (remove_non_alpha xs i) \<subseteq> set (remove1 (xs ! i) xs)"
        by (simp add: remove_non_alpha.simps [of xs i])
      then show ?thesis using set_remove1_subset by fastforce
    qed
  qed
qed

lemma file_exts_distinct: "distinct (file_exts l)"
  by (simp add: file_exts_def)

lemma file_exts_token:
  assumes "t \<in> set (file_exts l)"
  shows "starts_with_dot t \<and> last4 t = t \<and> t \<in> last4 ` set l"
proof -
  from assms have "t \<in> set (remove_non_alpha (filter starts_with_dot (map last4 l)) 0)"
    by (simp add: file_exts_def Let_def)
  then have "t \<in> set (filter starts_with_dot (map last4 l))"
    using remove_non_alpha_subset by blast
  then show ?thesis by (auto simp: last4_idem)
qed

lemma token_not_others: "t \<in> set (file_exts l) \<Longrightarrow> t \<noteq> ascii ''others''"
  using file_exts_token [of t l] by (auto simp: starts_with_dot_def ascii_def)

text \<open>The loop of lines 46 to 51 never removes a suffix of letters.\<close>

lemma remove_non_alpha_keeps_alpha:
  "x \<in> set xs \<Longrightarrow> isalpha (drop 1 x) \<Longrightarrow> x \<in> set (remove_non_alpha xs i)"
proof (induction xs i rule: remove_non_alpha.induct)
  case (1 xs i)
  show ?case
  proof (cases "i < length xs")
    case False
    with 1(3) show ?thesis by (simp add: remove_non_alpha.simps [of xs i])
  next
    case True
    note lt = this
    show ?thesis
    proof (cases "isalpha (drop 1 (xs ! i))")
      case True
      with lt 1(1) [OF lt True 1(3,4)] show ?thesis
        by (simp add: remove_non_alpha.simps [of xs i])
    next
      case False
      with 1(4) have "x \<noteq> xs ! i" by auto
      with 1(3) have "x \<in> set (remove1 (xs ! i) xs)" by simp
      from 1(2) [OF lt False this 1(4)] lt False show ?thesis
        by (simp add: remove_non_alpha.simps [of xs i])
    qed
  qed
qed

lemma valid_token_found:
  assumes "f \<in> set l" "starts_with_dot (last4 f)" "isalpha (drop 1 (last4 f))"
  shows "last4 f \<in> set (file_exts l)"
proof -
  from assms(1,2) have "last4 f \<in> set (filter starts_with_dot (map last4 l))" by simp
  from remove_non_alpha_keeps_alpha [OF this assms(3)] show ?thesis
    by (simp add: file_exts_def Let_def)
qed


subsection \<open>Single moves\<close>

lemma map_of_remove_entry: "map_of (remove_entry s fs) k = (if k = s then None else map_of fs k)"
  by (induction fs) (auto simp: remove_entry_def)

lemma map_of_replace_entry:
  "map_of (replace_entry d n fs) k = (if k = d \<and> map_of fs d \<noteq> None then Some n else map_of fs k)"
  by (induction fs) (auto simp: replace_entry_def)

lemma map_of_snoc:
  "map_of (fs @ [(d, n)]) k =
     (case map_of fs k of Some v \<Rightarrow> Some v | None \<Rightarrow> if k = d then Some n else None)"
  by (induction fs) auto

lemma in_listdir_iff: "k \<in> set (listdir fs) \<longleftrightarrow> map_of fs k \<noteq> None"
  by (simp add: listdir_def map_of_eq_None_iff)

lemma shutil_move_other:
  assumes "shutil_move fs src dst = Inr fs'" "k \<noteq> src" "k \<noteq> dst"
  shows "map_of fs' k = map_of fs k"
  using assms
  by (auto simp: shutil_move_def map_of_remove_entry map_of_replace_entry map_of_snoc
      simp del: map_of_append split: option.splits node.splits if_splits)

lemma shutil_move_into_dir:
  assumes "shutil_move fs src dst = Inr fs'" "map_of fs dst = Some (Dir cs)"
  shows "(src = dst \<and> fs' = fs) \<or>
         (src \<noteq> dst \<and> map_of cs src = None \<and>
          (\<exists>n. map_of fs src = Some n \<and> map_of fs' dst = Some (Dir (cs @ [(src, n)]))))"
  using assms
  by (auto simp: shutil_move_def map_of_remove_entry map_of_replace_entry in_listdir_iff
      map_of_snoc simp del: map_of_append split: option.splits node.splits if_splits)

lemma shutil_move_dst_present:
  assumes "shutil_move fs src dst = Inr fs'"
  shows "map_of fs' dst \<noteq> None"
  using assms
  by (auto simp: shutil_move_def map_of_remove_entry map_of_replace_entry map_of_snoc
      simp del: map_of_append split: option.splits node.splits if_splits)

subsection \<open>The three loops\<close>

lemma makedirs_exists: "name \<in> set (listdir fs) \<Longrightarrow> makedirs fs name = Inl FileExistsError"
  by (simp add: makedirs_def)

lemma makedirs_Inr:
  "makedirs fs name = Inr fs' \<longleftrightarrow>
     component name \<and> name \<notin> set (listdir fs) \<and> fs' = fs @ [(name, Dir [])]"
  by (auto simp: makedirs_def component_def)

lemma makedirs_cases:
  obtains (exists) "makedirs fs name = Inl FileExistsError" "name \<in> set (listdir fs)"
    | (directory) "makedirs fs name = Inl FileExistsError" "name \<notin> set (listdir fs)"
        "name = [] \<or> name = ascii ''.'' \<or> name = ascii ''..''"
    | (refused) e where "makedirs fs name = Inl e" "e \<noteq> FileExistsError"
    | (created) "makedirs fs name = Inr (fs @ [(name, Dir [])])" "name \<notin> set (listdir fs)"
        "name \<noteq> []" "name \<noteq> ascii ''.''" "name \<noteq> ascii ''..''"
proof (cases "name \<in> set (listdir fs)")
  case True
  then have "makedirs fs name = Inl FileExistsError" by (simp add: makedirs_def)
  with True show ?thesis by (rule exists [rotated])
next
  case False
  note nin = this
  show ?thesis
  proof (cases "name = [] \<or> name = ascii ''.'' \<or> name = ascii ''..''")
    case True
    then have "makedirs fs name = Inl FileExistsError" by (auto simp: makedirs_def)
    from this nin True show ?thesis by (rule directory)
  next
    case False
    note nd = this
    show ?thesis
    proof (cases "47 \<in> set name")
      case True
      with nin nd have "makedirs fs name = Inl SeveralComponents" by (simp add: makedirs_def)
      then show ?thesis by (rule refused) simp
    next
      case False
      note ns = this
      show ?thesis
      proof (cases "0 \<in> set name")
        case True
        with nin nd ns have "makedirs fs name = Inl ValueError" by (simp add: makedirs_def)
        then show ?thesis by (rule refused) simp
      next
        case False
        with nin nd ns have "makedirs fs name = Inr (fs @ [(name, Dir [])])"
          by (simp add: makedirs_def)
        from this nin show ?thesis using nd by (intro created) simp_all
      qed
    qed
  qed
qed

text \<open>The loop of lines 56 to 60, when it ends without an exception: what was there is
  there, and every token that is neither empty nor \<open>.\<close> nor \<open>..\<close> is an entry.\<close>

lemma make_ext_folders_result:
  assumes "make_ext_folders exts fs = Inr fs2"
  shows "map_of fs2 k =
        (case map_of fs k of Some v \<Rightarrow> Some v
         | None \<Rightarrow> if k \<in> set exts \<and> k \<noteq> [] \<and> k \<noteq> ascii ''.'' \<and> k \<noteq> ascii ''..''
                   then Some (Dir []) else None)"
  using assms
proof (induction exts arbitrary: fs)
  case Nil
  then show ?case by (auto split: option.splits)
next
  case (Cons e rest)
  show ?case
  proof (cases rule: makedirs_cases [of fs e])
    case exists
    with Cons.prems have r: "make_ext_folders rest fs = Inr fs2" by simp
    from exists have "map_of fs e \<noteq> None" by (simp add: in_listdir_iff)
    with Cons.IH [OF r] show ?thesis by (auto split: option.splits)
  next
    case directory
    with Cons.prems have r: "make_ext_folders rest fs = Inr fs2" by simp
    from Cons.IH [OF r] directory(3) show ?thesis by (auto split: option.splits)
  next
    case (refused x)
    with Cons.prems show ?thesis by simp
  next
    case created
    with Cons.prems have r: "make_ext_folders rest (fs @ [(e, Dir [])]) = Inr fs2" by simp
    show ?thesis
      unfolding Cons.IH [OF r] map_of_snoc using created(3,4,5)
      by (auto split: option.splits)
  qed
qed

text \<open>The loop does not raise at a token that is an entry already (FileExistsError is
  caught), and it ends when every token is one path component.\<close>

lemma make_ext_folders_tolerant:
  "e \<in> set (listdir s) \<Longrightarrow> make_ext_folders (e # rest) s = make_ext_folders rest s"
  by (simp add: makedirs_exists)

lemma make_ext_folders_succeeds:
  "\<forall>e\<in>set exts. component e \<Longrightarrow> \<exists>fs2. make_ext_folders exts fs = Inr fs2"
proof (induction exts arbitrary: fs)
  case Nil
  show ?case by simp
next
  case (Cons e rest)
  then have c: "component e" and r: "\<forall>e\<in>set rest. component e" by simp_all
  show ?case
  proof (cases "e \<in> set (listdir fs)")
    case True
    with Cons.IH [OF r, of fs] show ?thesis by (simp add: makedirs_exists)
  next
    case False
    with c have "makedirs fs e = Inr (fs @ [(e, Dir [])])" by (simp add: makedirs_Inr)
    with Cons.IH [OF r, of "fs @ [(e, Dir [])]"] show ?thesis by simp
  qed
qed

lemma move_to_ext_skip: "last4 f \<notin> set exts \<Longrightarrow> move_to_ext f exts s = Inr s"
  by (induction exts) auto

lemma move_to_ext_cases:
  assumes "distinct exts" "move_to_ext f exts s = Inr s'"
  shows "(last4 f \<notin> set exts \<and> s' = s) \<or>
         (last4 f \<in> set exts \<and> shutil_move s f (last4 f) = Inr s')"
  using assms
proof (induction exts)
  case Nil
  then show ?case by simp
next
  case (Cons t rest)
  show ?case
  proof (cases "last4 f = t")
    case True
    with Cons.prems obtain s1 where
      mv: "shutil_move s f t = Inr s1" and r: "move_to_ext f rest s1 = Inr s'"
      by (auto split: sum.splits)
    from True Cons.prems(1) have "last4 f \<notin> set rest" by auto
    with r have "s' = s1" by (simp add: move_to_ext_skip)
    with mv True show ?thesis by simp
  next
    case False
    with Cons show ?thesis by auto
  qed
qed

lemma step_bucket:
  assumes "distinct exts" "\<forall>t\<in>set exts. last4 t = t" "e \<in> set exts"
    and "move_to_ext f exts s = Inr s'" "map_of s e = Some (Dir cs)"
  shows "\<exists>cs'. map_of s' e = Some (Dir (cs @ cs'))"
proof -
  from move_to_ext_cases [OF assms(1) assms(4)]
  consider "s' = s" | "last4 f \<in> set exts" "shutil_move s f (last4 f) = Inr s'"
    by blast
  then show ?thesis
  proof cases
    case 1
    with assms(5) show ?thesis by simp
  next
    case 2
    show ?thesis
    proof (cases "last4 f = e")
      case True
      with 2 shutil_move_into_dir [of s f e s' cs] assms(5) show ?thesis by auto
    next
      case False
      with assms(2,3) have "f \<noteq> e" by auto
      with False 2 shutil_move_other [of s f "last4 f" s' e] assms(5) show ?thesis
        by auto
    qed
  qed
qed

lemma step_entry_kept:
  assumes "distinct exts" "move_to_ext f exts s = Inr s'" "k \<noteq> f" "k \<notin> set exts"
  shows "map_of s' k = map_of s k"
proof -
  from move_to_ext_cases [OF assms(1) assms(2)]
  consider "s' = s" | "last4 f \<in> set exts" "shutil_move s f (last4 f) = Inr s'"
    by blast
  then show ?thesis
  proof cases
    case 1
    then show ?thesis by simp
  next
    case 2
    with assms(4) have "k \<noteq> last4 f" by auto
    with 2 assms(3) show ?thesis by (simp add: shutil_move_other)
  qed
qed

lemma step_moves:
  assumes "distinct exts" "last4 n \<in> set exts" "n \<noteq> last4 n"
    and "move_to_ext n exts s = Inr s'"
    and "map_of s (last4 n) = Some (Dir cs)" "map_of s n = Some x"
  shows "map_of s' (last4 n) = Some (Dir (cs @ [(n, x)])) \<and> map_of cs n = None"
proof -
  from move_to_ext_cases [OF assms(1) assms(4)] assms(2)
  have "shutil_move s n (last4 n) = Inr s'" by blast
  from shutil_move_into_dir [OF this assms(5)] assms(3,6) show ?thesis by auto
qed

lemma move_files_bucket:
  assumes "distinct exts" "\<forall>t\<in>set exts. last4 t = t" "e \<in> set exts"
    and "move_files files exts s = Inr s'" "map_of s e = Some (Dir cs)"
  shows "\<exists>cs'. map_of s' e = Some (Dir (cs @ cs'))"
  using assms(4,5)
proof (induction files arbitrary: s cs)
  case Nil
  then show ?case by simp
next
  case (Cons f rest)
  from Cons.prems(1) obtain s1 where
    st: "move_to_ext f exts s = Inr s1" and r: "move_files rest exts s1 = Inr s'"
    by (auto split: sum.splits)
  from step_bucket [OF assms(1,2,3) st Cons.prems(2)] obtain c1 where
    "map_of s1 e = Some (Dir (cs @ c1))" by blast
  from Cons.IH [OF r this] show ?case by auto
qed

lemma move_files_moves:
  assumes "distinct exts" "\<forall>t\<in>set exts. last4 t = t" "last4 n \<in> set exts" "n \<noteq> last4 n"
    and "move_files files exts s = Inr s'" "n \<in> set files"
    and "map_of s (last4 n) = Some (Dir cs)" "map_of s n = Some x"
  shows "\<exists>cs'. map_of s' (last4 n) = Some (Dir cs') \<and> map_of cs' n = Some x"
  using assms(5-8)
proof (induction files arbitrary: s cs)
  case Nil
  then show ?case by simp
next
  case (Cons f rest)
  from Cons.prems(1) obtain s1 where
    st: "move_to_ext f exts s = Inr s1" and r: "move_files rest exts s1 = Inr s'"
    by (auto split: sum.splits)
  show ?case
  proof (cases "f = n")
    case True
    from step_moves [OF assms(1,3,4) st [unfolded True] Cons.prems(3,4)]
    have b: "map_of s1 (last4 n) = Some (Dir (cs @ [(n, x)]))" and fresh: "map_of cs n = None"
      by simp_all
    from move_files_bucket [OF assms(1,2,3) r b] obtain c2 where
      "map_of s' (last4 n) = Some (Dir ((cs @ [(n, x)]) @ c2))" by blast
    moreover from fresh have "map_of ((cs @ [(n, x)]) @ c2) n = Some x"
      by (simp add: map_add_def)
    ultimately show ?thesis by blast
  next
    case False
    with Cons.prems(2) have mem: "n \<in> set rest" by simp
    from assms(2,4) have "n \<notin> set exts" by auto
    with step_entry_kept [OF assms(1) st, of n] False Cons.prems(4)
    have kept: "map_of s1 n = Some x" by simp
    from step_bucket [OF assms(1,2,3) st Cons.prems(3)] obtain c1 where
      "map_of s1 (last4 n) = Some (Dir (cs @ c1))" by blast
    from Cons.IH [OF r mem this kept] show ?thesis .
  qed
qed

lemma move_misc_other:
  assumes "move_misc files s = Inr s'" "k \<notin> set files" "k \<noteq> (ascii ''others'')"
  shows "map_of s' k = map_of s k"
  using assms(1,2)
proof (induction files arbitrary: s)
  case Nil
  then show ?case by simp
next
  case (Cons f rest)
  from Cons.prems(1) obtain s1 where
    mv: "shutil_move s f (ascii ''others'') = Inr s1" and r: "move_misc rest s1 = Inr s'"
    by (auto split: sum.splits)
  from Cons.prems(2) have "k \<noteq> f" "k \<notin> set rest" by auto
  with Cons.IH [OF r] shutil_move_other [OF mv _ assms(3)] show ?case by simp
qed


subsection \<open>The phases of a run\<close>

text \<open>The guard of lines 36 to 40: when the entry \<open>misc_folder_name\<close> exists, the call
  raises FileExistsError and the directory is as it was.\<close>

lemma arrange_files_guard:
  "misc \<in> set (listdir fs) \<Longrightarrow> arrange_files fs misc = Inl (FileExistsError, fs)"
  by (simp add: arrange_files_def makedirs_exists)

lemma arrange_files_phases:
  assumes "arrange_files fs misc = Inr fs'"
  shows "misc \<notin> set (listdir fs) \<and> component misc \<and>
    (\<exists>fs2 fs3.
       make_ext_folders (file_exts (listdir fs @ [misc])) (fs @ [(misc, Dir [])]) = Inr fs2
     \<and> move_files (listdir fs @ [misc]) (file_exts (listdir fs @ [misc])) fs2 = Inr fs3
     \<and> move_misc (filter (\<lambda>x. x \<notin> set (file_exts (listdir fs @ [misc]))) (listdir fs3)) fs3
         = Inr fs')"
proof -
  from assms obtain fs1 where m: "makedirs fs misc = Inr fs1"
    by (auto simp: arrange_files_def split: sum.splits)
  then have c: "component misc" "misc \<notin> set (listdir fs)" "fs1 = fs @ [(misc, Dir [])]"
    by (simp_all add: makedirs_Inr)
  have l: "listdir (fs @ [(misc, Dir [])]) = listdir fs @ [misc]"
    by (simp add: listdir_def)
  from assms m c(3) l show ?thesis
    using c(1,2) by (auto simp: arrange_files_def Let_def split: sum.splits)
qed

subsection \<open>Both loops of moves as sequences of moves\<close>

lemma moves_append:
  "moves (a @ b) s = (case moves a s of Inl r \<Rightarrow> Inl r | Inr s' \<Rightarrow> moves b s')"
  by (induction a arbitrary: s) (auto split: sum.splits)

lemma move_to_ext_as_moves:
  assumes "distinct exts"
  shows "move_to_ext f exts s = moves (ext_moves [f] exts) s"
  using assms
proof (induction exts)
  case Nil
  show ?case by (simp add: ext_moves_def)
next
  case (Cons t rest)
  show ?case
  proof (cases "last4 f = t")
    case True
    with Cons.prems have "last4 f \<notin> set rest" by auto
    then have "\<And>s'. move_to_ext f rest s' = Inr s'" by (simp add: move_to_ext_skip)
    with True show ?thesis by (auto simp: ext_moves_def split: sum.splits)
  next
    case False
    with Cons show ?thesis by (auto simp: ext_moves_def)
  qed
qed

lemma ext_moves_Cons: "ext_moves (f # rest) exts = ext_moves [f] exts @ ext_moves rest exts"
  by (simp add: ext_moves_def)

lemma move_files_as_moves:
  assumes "distinct exts"
  shows "move_files files exts s = moves (ext_moves files exts) s"
proof (induction files arbitrary: s)
  case Nil
  show ?case by (simp add: ext_moves_def)
next
  case (Cons f rest)
  show ?case
    unfolding ext_moves_Cons [of f rest] moves_append
    by (simp add: move_to_ext_as_moves [OF assms] Cons.IH split: sum.splits)
qed

lemma move_misc_as_moves:
  "move_misc files s = moves (map (\<lambda>f. (f, (ascii ''others''))) files) s"
  by (induction files arbitrary: s) (auto split: sum.splits)

lemma listdir_remove_entry: "listdir (remove_entry k s) = filter (\<lambda>x. x \<noteq> k) (listdir s)"
  by (induction s) (auto simp: remove_entry_def listdir_def)

lemma listdir_replace_entry: "listdir (replace_entry k n s) = listdir s"
  by (induction s) (auto simp: replace_entry_def listdir_def)

lemma shutil_move_distinct:
  assumes "shutil_move s src dst = Inr s'" "distinct (listdir s)"
  shows "distinct (listdir s')"
proof -
  have a: "distinct (listdir (remove_entry src s))"
    using assms(2) by (simp add: listdir_remove_entry)
  have b: "map_of s dst = None \<Longrightarrow> dst \<notin> set (listdir (remove_entry src s))"
    by (simp add: listdir_remove_entry in_listdir_iff)
  have c: "\<And>n. listdir (remove_entry src s @ [(dst, n)]) = listdir (remove_entry src s) @ [dst]"
    by (simp add: listdir_def)
  from assms(1) show ?thesis
    using a b c assms(2)
    by (auto simp: shutil_move_def listdir_replace_entry
        split: option.splits node.splits if_splits)
qed

lemma moves_distinct:
  "moves ms s = Inr s' \<Longrightarrow> distinct (listdir s) \<Longrightarrow> distinct (listdir s')"
proof (induction ms arbitrary: s)
  case Nil
  then show ?case by simp
next
  case (Cons m rest)
  from Cons.prems(1) obtain s1 where
    mv: "shutil_move s (fst m) (snd m) = Inr s1" and r: "moves rest s1 = Inr s'"
    by (auto split: sum.splits)
  from Cons.IH [OF r shutil_move_distinct [OF mv Cons.prems(2)]] show ?case .
qed

lemma moves_other:
  assumes "moves ms s = Inr s'" "k \<notin> fst ` set ms" "k \<notin> snd ` set ms"
  shows "map_of s' k = map_of s k"
  using assms
proof (induction ms arbitrary: s)
  case Nil
  then show ?case by simp
next
  case (Cons m rest)
  from Cons.prems(1) obtain s1 where
    mv: "shutil_move s (fst m) (snd m) = Inr s1" and r: "moves rest s1 = Inr s'"
    by (auto split: sum.splits)
  from Cons.prems(2,3) have "k \<noteq> fst m" "k \<noteq> snd m" by auto
  from shutil_move_other [OF mv this] Cons.IH [OF r] Cons.prems(2,3)
  show ?case by simp
qed

lemma shutil_move_into:
  assumes "map_of s dst = Some (Dir cs)" "src \<noteq> dst" "src \<notin> set (listdir cs)"
    "map_of s src = Some n"
  shows "shutil_move s src dst
    = Inr (replace_entry dst (Dir (cs @ [(src, n)])) (remove_entry src s))"
  using assms by (simp add: shutil_move_def)

lemma shutil_move_onto_itself:
  "map_of s d = Some (Dir cs) \<Longrightarrow> shutil_move s d d = Inr s"
  by (simp add: shutil_move_def)

lemma moves_ready_step:
  assumes "moves_ready (m # rest) s"
  shows "\<exists>s1. shutil_move s (fst m) (snd m) = Inr s1 \<and> moves_ready rest s1"
proof -
  obtain f d where m: "m = (f, d)" by (cases m)
  note R = assms [unfolded moves_ready_def]
  note dist = R [THEN conjunct1]
    and dsts = R [THEN conjunct2, THEN conjunct1]
    and srcs = R [THEN conjunct2, THEN conjunct2, THEN conjunct1]
    and self = R [THEN conjunct2, THEN conjunct2, THEN conjunct2]
  have "d \<in> snd ` set (m # rest)" using m by force
  with dsts obtain cs where
    dd: "map_of s d = Some (Dir cs)" and
    fresh: "set (listdir cs) \<inter> fst ` set (m # rest) = {}"
    by blast
  show ?thesis
  proof (cases "f = d")
    case True
    with dd m have "shutil_move s (fst m) (snd m) = Inr s"
      by (simp add: shutil_move_onto_itself)
    moreover have "moves_ready rest s"
      unfolding moves_ready_def
    proof (intro conjI ballI impI)
      show "distinct (map fst rest)" using dist by simp
    next
      fix d' assume "d' \<in> snd ` set rest"
      then have "d' \<in> snd ` set (m # rest)" by auto
      with dsts obtain c' where "map_of s d' = Some (Dir c')"
        "set (listdir c') \<inter> fst ` set (m # rest) = {}" by blast
      then show "\<exists>cs. map_of s d' = Some (Dir cs) \<and> set (listdir cs) \<inter> fst ` set rest = {}"
        by auto
    next
      fix f' assume "f' \<in> fst ` set rest"
      with srcs show "map_of s f' \<noteq> None" by auto
    next
      fix m' assume a: "m' \<in> set rest" "fst m' \<in> snd ` set rest"
      from a(1) have "m' \<in> set (m # rest)" by simp
      moreover from a(2) have "fst m' \<in> snd ` set (m # rest)" by auto
      ultimately show "fst m' = snd m'" using self by blast
    qed
    ultimately show ?thesis by blast
  next
    case False
    from fresh m have nf: "f \<notin> set (listdir cs)" by auto
    from srcs m obtain n where fn: "map_of s f = Some n" by auto
    let ?s1 = "replace_entry d (Dir (cs @ [(f, n)])) (remove_entry f s)"
    from shutil_move_into [OF dd False nf fn] m
    have mv: "shutil_move s (fst m) (snd m) = Inr ?s1" by simp
    have look: "\<And>k. map_of ?s1 k =
        (if k = d then Some (Dir (cs @ [(f, n)])) else if k = f then None else map_of s k)"
      using dd False by (auto simp: map_of_replace_entry map_of_remove_entry)
    have fnd: "f \<notin> snd ` set (m # rest)"
    proof
      assume "f \<in> snd ` set (m # rest)"
      with m have "fst m \<in> snd ` set (m # rest)" by simp
      moreover have "m \<in> set (m # rest)" by simp
      ultimately have "fst m = snd m" using self by blast
      with m False show False by simp
    qed
    from dist m have fnr: "f \<notin> fst ` set rest" by auto
    have "moves_ready rest ?s1"
      unfolding moves_ready_def
    proof (intro conjI ballI impI)
      show "distinct (map fst rest)" using dist by simp
    next
      fix d' assume d': "d' \<in> snd ` set rest"
      then have in': "d' \<in> snd ` set (m # rest)" by auto
      show "\<exists>c'. map_of ?s1 d' = Some (Dir c') \<and> set (listdir c') \<inter> fst ` set rest = {}"
      proof (cases "d' = d")
        case True
        have "set (listdir (cs @ [(f, n)])) \<inter> fst ` set rest = {}"
          using fresh fnr by (auto simp: listdir_def)
        with True look show ?thesis by simp
      next
        case False
        from in' fnd have "d' \<noteq> f" by auto
        with False look have "map_of ?s1 d' = map_of s d'" by simp
        moreover from dsts in' obtain c' where "map_of s d' = Some (Dir c')"
          "set (listdir c') \<inter> fst ` set (m # rest) = {}" by blast
        ultimately show ?thesis by auto
      qed
    next
      fix f' assume f': "f' \<in> fst ` set rest"
      with fnr have "f' \<noteq> f" by auto
      moreover from f' srcs have "map_of s f' \<noteq> None" by auto
      ultimately show "map_of ?s1 f' \<noteq> None" using look by simp
    next
      fix m' assume a: "m' \<in> set rest" "fst m' \<in> snd ` set rest"
      from a(1) have "m' \<in> set (m # rest)" by simp
      moreover from a(2) have "fst m' \<in> snd ` set (m # rest)" by auto
      ultimately show "fst m' = snd m'" using self by blast
    qed
    with mv show ?thesis by blast
  qed
qed

lemma moves_ready_succeeds: "moves_ready ms s \<Longrightarrow> \<exists>s'. moves ms s = Inr s'"
proof (induction ms arbitrary: s)
  case Nil
  show ?case by simp
next
  case (Cons m rest)
  from moves_ready_step [OF Cons.prems] obtain s1 where
    mv: "shutil_move s (fst m) (snd m) = Inr s1" and rd: "moves_ready rest s1" by blast
  from Cons.IH [OF rd] mv show ?case by auto
qed

subsection \<open>Runs with the default name\<close>

lemma make_ext_folders_distinct:
  "make_ext_folders exts s = Inr s' \<Longrightarrow> distinct (listdir s) \<Longrightarrow> distinct (listdir s')"
proof (induction exts arbitrary: s)
  case Nil
  then show ?case by simp
next
  case (Cons e rest)
  show ?case
  proof (cases rule: makedirs_cases [of s e])
    case exists
    with Cons.prems(1) have "make_ext_folders rest s = Inr s'" by simp
    from Cons.IH [OF this Cons.prems(2)] show ?thesis .
  next
    case directory
    with Cons.prems(1) have "make_ext_folders rest s = Inr s'" by simp
    from Cons.IH [OF this Cons.prems(2)] show ?thesis .
  next
    case (refused x)
    with Cons.prems(1) show ?thesis by simp
  next
    case created
    with Cons.prems(1) have r: "make_ext_folders rest (s @ [(e, Dir [])]) = Inr s'" by simp
    from created(2) Cons.prems(2) have "distinct (listdir (s @ [(e, Dir [])]))"
      by (simp add: listdir_def)
    from Cons.IH [OF r this] show ?thesis .
  qed
qed

lemma last4_others: "last4 (ascii ''others'') = ascii ''hers''"
  by (simp add: last4_def ascii_def)

lemma component_others: "component (ascii ''others'')"
  by (simp add: component_def ascii_def)

lemma component_last4:
  assumes "component f"
  shows "component (last4 f)"
proof (cases "length f \<le> 4")
  case True
  then have "last4 f = f" by (simp add: last4_def)
  with assms show ?thesis by simp
next
  case False
  then have "length (last4 f) = 4" by (simp add: last4_def)
  then have "last4 f \<noteq> []" "last4 f \<noteq> ascii ''.''" "last4 f \<noteq> ascii ''..''"
    by (auto simp: ascii_def)
  moreover have "set (last4 f) \<subseteq> set f"
    unfolding last4_def by (rule set_drop_subset)
  ultimately show ?thesis using assms by (auto simp: component_def)
qed

lemma others_no_token: "last4 (ascii ''others'') \<notin> set (file_exts l)"
proof
  assume "last4 (ascii ''others'') \<in> set (file_exts l)"
  from file_exts_token [OF this] have "starts_with_dot (ascii ''hers'')"
    by (simp add: last4_others)
  then show False by (simp add: starts_with_dot_def ascii_def)
qed

lemma ext_moves_fst: "fst ` set (ext_moves files exts) = {f \<in> set files. last4 f \<in> set exts}"
  by (auto simp: ext_moves_def image_iff)

lemma ext_moves_snd: "snd ` set (ext_moves files exts) \<subseteq> set exts"
  by (auto simp: ext_moves_def)

lemma ext_moves_map_fst:
  "map fst (ext_moves files exts) = filter (\<lambda>f. last4 f \<in> set exts) files"
  by (induction files) (auto simp: ext_moves_def)

lemma ext_moves_entry: "m \<in> set (ext_moves files exts) \<Longrightarrow> snd m = last4 (fst m)"
  by (auto simp: ext_moves_def)

lemma move_misc_keeps_others:
  "move_misc files s = Inr s' \<Longrightarrow> map_of s (ascii ''others'') \<noteq> None
   \<Longrightarrow> map_of s' (ascii ''others'') \<noteq> None"
proof (induction files arbitrary: s)
  case Nil
  then show ?case by simp
next
  case (Cons f rest)
  from Cons.prems(1) obtain s1 where
    mv: "shutil_move s f (ascii ''others'') = Inr s1" and r: "move_misc rest s1 = Inr s'"
    by (auto split: sum.splits)
  from Cons.IH [OF r shutil_move_dst_present [OF mv]] show ?case .
qed

text \<open>The two first phases of a run leave an entry as it was, when its suffix is no
  token.\<close>

lemma after_ext_moves:
  assumes p1: "make_ext_folders (file_exts (listdir fs @ [misc])) (fs @ [(misc, Dir [])]) = Inr fs2"
    and p2: "move_files (listdir fs @ [misc]) (file_exts (listdir fs @ [misc])) fs2 = Inr fs3"
    and k: "last4 k \<notin> set (file_exts (listdir fs @ [misc]))"
  shows "map_of fs3 k = map_of (fs @ [(misc, Dir [])]) k"
proof -
  let ?files = "listdir fs @ [misc]"
  let ?exts = "file_exts ?files"
  have kn: "k \<notin> set ?exts"
  proof
    assume "k \<in> set ?exts"
    with file_exts_token [of k ?files] k show False by simp
  qed
  note m2 = make_ext_folders_result [OF p1]
  from p2 have mv: "moves (ext_moves ?files ?exts) fs2 = Inr fs3"
    by (simp add: move_files_as_moves [OF file_exts_distinct])
  have "k \<notin> fst ` set (ext_moves ?files ?exts)"
    using k by (simp add: ext_moves_fst)
  moreover have "k \<notin> snd ` set (ext_moves ?files ?exts)"
    using kn ext_moves_snd by blast
  ultimately have "map_of fs3 k = map_of fs2 k"
    using moves_other [OF mv] by blast
  also have "\<dots> = map_of (fs @ [(misc, Dir [])]) k"
    unfolding m2 using kn by (simp del: map_of_append split: option.splits)
  finally show ?thesis .
qed

text \<open>With the default name, a run that ends leaves the entry \<open>others\<close> in place, so
  a second run on the result raises FileExistsError and leaves the directory as it is.\<close>

lemma default_second_run_raises:
  assumes "arrange_files fs (ascii ''others'') = Inr fs'"
  shows "arrange_files fs' (ascii ''others'') = Inl (FileExistsError, fs')"
proof -
  let ?files = "listdir fs @ [(ascii ''others'')]"
  let ?exts = "file_exts ?files"
  from arrange_files_phases [OF assms] obtain fs2 fs3 where
    p1: "make_ext_folders ?exts (fs @ [((ascii ''others''), Dir [])]) = Inr fs2" and
    p2: "move_files ?files ?exts fs2 = Inr fs3" and
    p3: "move_misc (filter (\<lambda>x. x \<notin> set ?exts) (listdir fs3)) fs3 = Inr fs'"
    by blast
  from after_ext_moves [OF p1 p2 others_no_token]
  have "map_of fs3 (ascii ''others'') = map_of (fs @ [((ascii ''others''), Dir [])]) (ascii ''others'')" .
  then have "map_of fs3 (ascii ''others'') \<noteq> None"
    unfolding map_of_snoc by (simp split: option.splits)
  from move_misc_keeps_others [OF p3 this] have "(ascii ''others'') \<in> set (listdir fs')"
    by (simp add: in_listdir_iff)
  then show ?thesis by (rule arrange_files_guard)
qed

lemma moves_single_bucket:
  assumes "moves ms s = Inr s'" "\<forall>m\<in>set ms. snd m = d" "map_of s d = Some (Dir cs)"
  shows "\<exists>cs'. map_of s' d = Some (Dir (cs @ cs'))"
  using assms
proof (induction ms arbitrary: s cs)
  case Nil
  then show ?case by simp
next
  case (Cons m rest)
  from Cons.prems(1) obtain s1 where
    mv: "shutil_move s (fst m) (snd m) = Inr s1" and r: "moves rest s1 = Inr s'"
    by (auto split: sum.splits)
  from Cons.prems(2) have sd: "snd m = d" and rd: "\<forall>m\<in>set rest. snd m = d" by simp_all
  from shutil_move_into_dir [OF mv [unfolded sd] Cons.prems(3)] Cons.prems(3)
  obtain c1 where "map_of s1 d = Some (Dir (cs @ c1))" by auto
  from Cons.IH [OF r rd this] show ?case by auto
qed

lemma moves_single_holds:
  assumes "moves ms s = Inr s'" "\<forall>m\<in>set ms. snd m = d" "n \<in> fst ` set ms" "n \<noteq> d"
    and "map_of s d = Some (Dir cs)" "map_of s n = Some x"
  shows "\<exists>cs'. map_of s' d = Some (Dir cs') \<and> map_of cs' n = Some x"
  using assms(1,2,3,5,6)
proof (induction ms arbitrary: s cs)
  case Nil
  then show ?case by simp
next
  case (Cons m rest)
  from Cons.prems(1) obtain s1 where
    mv: "shutil_move s (fst m) (snd m) = Inr s1" and r: "moves rest s1 = Inr s'"
    by (auto split: sum.splits)
  from Cons.prems(2) have sd: "snd m = d" and rd: "\<forall>m\<in>set rest. snd m = d" by simp_all
  note step = shutil_move_into_dir [OF mv [unfolded sd] Cons.prems(4)]
  show ?case
  proof (cases "fst m = n")
    case True
    with step assms(4) Cons.prems(5)
    have b: "map_of s1 d = Some (Dir (cs @ [(n, x)]))" and fresh: "map_of cs n = None"
      by auto
    from moves_single_bucket [OF r rd b] obtain c2 where
      "map_of s' d = Some (Dir ((cs @ [(n, x)]) @ c2))" by blast
    moreover from fresh have "map_of ((cs @ [(n, x)]) @ c2) n = Some x"
      by (simp add: map_add_def)
    ultimately show ?thesis by blast
  next
    case False
    with Cons.prems(3) have mem: "n \<in> fst ` set rest" by auto
    from False assms(4) shutil_move_other [OF mv [unfolded sd], of n] Cons.prems(5)
    have kept: "map_of s1 n = Some x" by simp
    from step Cons.prems(4) obtain c1 where "map_of s1 d = Some (Dir (cs @ c1))" by auto
    from Cons.IH [OF r rd mem this kept] show ?thesis .
  qed
qed

text \<open>With the default name, every entry whose suffix is no token is in \<open>others\<close>
  after a run that ends.\<close>

lemma default_others_holds_rest:
  assumes run: "arrange_files fs (ascii ''others'') = Inr fs'"
    and ent: "map_of fs n = Some x"
    and notok: "last4 n \<notin> set (file_exts (listdir fs @ [(ascii ''others'')]))"
  shows "\<exists>cs. map_of fs' (ascii ''others'') = Some (Dir cs) \<and> map_of cs n = Some x"
proof -
  let ?files = "listdir fs @ [(ascii ''others'')]"
  let ?exts = "file_exts ?files"
  from arrange_files_phases [OF run] obtain fs2 fs3 where
    fresh: "(ascii ''others'') \<notin> set (listdir fs)" and
    p1: "make_ext_folders ?exts (fs @ [((ascii ''others''), Dir [])]) = Inr fs2" and
    p2: "move_files ?files ?exts fs2 = Inr fs3" and
    p3: "move_misc (filter (\<lambda>x. x \<notin> set ?exts) (listdir fs3)) fs3 = Inr fs'"
    by blast
  from fresh have none: "map_of fs (ascii ''others'') = None"
    by (simp add: in_listdir_iff)
  with ent have nd: "n \<noteq> (ascii ''others'')" by auto
  from after_ext_moves [OF p1 p2 others_no_token] none
  have o3: "map_of fs3 (ascii ''others'') = Some (Dir [])"
    unfolding map_of_snoc by simp
  from after_ext_moves [OF p1 p2 notok] ent
  have n3: "map_of fs3 n = Some x"
    unfolding map_of_snoc by simp
  have "n \<notin> set ?exts"
  proof
    assume "n \<in> set ?exts"
    with file_exts_token [of n ?files] notok show False by simp
  qed
  moreover from n3 have "n \<in> set (listdir fs3)" by (simp add: in_listdir_iff)
  ultimately have mem: "n \<in> fst ` set (map (\<lambda>f. (f, (ascii ''others'')))
      (filter (\<lambda>x. x \<notin> set ?exts) (listdir fs3)))"
    by (simp add: image_iff)
  from p3 have mv: "moves (map (\<lambda>f. (f, (ascii ''others'')))
      (filter (\<lambda>x. x \<notin> set ?exts) (listdir fs3))) fs3 = Inr fs'"
    by (simp add: move_misc_as_moves)
  have all: "\<forall>m\<in>set (map (\<lambda>f. (f, (ascii ''others'')))
      (filter (\<lambda>x. x \<notin> set ?exts) (listdir fs3))). snd m = (ascii ''others'')"
    by simp
  from moves_single_holds [OF mv all mem nd o3 n3] show ?thesis .
qed

text \<open>With the default name the run ends without an exception, when the names of the
  directory are distinct path components, none is \<open>others\<close>, no token names a regular
  file, and a directory a token names holds no name of the directory.\<close>

lemma default_run_succeeds:
  assumes dist: "distinct (listdir fs)"
    and names: "\<forall>n\<in>set (listdir fs). component n"
    and fresh: "(ascii ''others'') \<notin> set (listdir fs)"
    and nofile: "\<forall>e\<in>set (file_exts (listdir fs @ [(ascii ''others'')])). \<not> isfile fs e"
    and noclash: "\<forall>e\<in>set (file_exts (listdir fs @ [(ascii ''others'')])). \<forall>cs.
        map_of fs e = Some (Dir cs) \<longrightarrow> set (listdir cs) \<inter> set (listdir fs) = {}"
  shows "\<exists>fs'. arrange_files fs (ascii ''others'') = Inr fs'"
proof -
  let ?fs1 = "fs @ [((ascii ''others''), Dir [])]"
  let ?files = "listdir fs @ [(ascii ''others'')]"
  let ?exts = "file_exts ?files"
  let ?ms = "ext_moves ?files ?exts"
  have l1: "listdir ?fs1 = ?files" by (simp add: listdir_def)
  have none: "map_of fs (ascii ''others'') = None"
    using fresh by (simp add: in_listdir_iff)
  have comp: "\<forall>e\<in>set ?exts. component e"
  proof
    fix e assume "e \<in> set ?exts"
    from file_exts_token [OF this] obtain f where "f \<in> set ?files" "e = last4 f" by auto
    with names component_others component_last4 show "component e" by auto
  qed
  from make_ext_folders_succeeds [OF comp, of ?fs1] obtain fs2 where
    p1: "make_ext_folders ?exts ?fs1 = Inr fs2" by blast
  note m2 = make_ext_folders_result [OF p1]
  have d1: "distinct (listdir ?fs1)" using dist fresh by (simp add: listdir_def)
  have d2: "distinct (listdir fs2)" by (rule make_ext_folders_distinct [OF p1 d1])
  have srcs_sub: "fst ` set ?ms \<subseteq> set (listdir fs)"
    using others_no_token [of ?files] by (auto simp: ext_moves_fst)
  have ready: "moves_ready ?ms fs2"
    unfolding moves_ready_def
  proof (intro conjI ballI impI)
    show "distinct (map fst ?ms)"
      using dist fresh by (simp add: ext_moves_map_fst)
  next
    fix d assume "d \<in> snd ` set ?ms"
    with ext_moves_snd have tok: "d \<in> set ?exts" by blast
    then have dn: "d \<noteq> (ascii ''others'')" by (rule token_not_others)
    show "\<exists>cs. map_of fs2 d = Some (Dir cs) \<and> set (listdir cs) \<inter> fst ` set ?ms = {}"
    proof (cases "map_of fs d")
      case None
      from comp tok have "d \<noteq> []" "d \<noteq> ascii ''.''" "d \<noteq> ascii ''..''"
        by (auto simp: component_def)
      with None dn tok have "map_of fs2 d = Some (Dir [])"
        unfolding m2 map_of_snoc by simp
      then show ?thesis by (simp add: listdir_def)
    next
      case (Some v)
      with nofile tok obtain c0 where v: "v = Dir c0"
        by (cases v) (auto simp: isfile_def)
      with Some noclash tok have "set (listdir c0) \<inter> set (listdir fs) = {}" by blast
      with srcs_sub have "set (listdir c0) \<inter> fst ` set ?ms = {}" by blast
      moreover from Some v have "map_of fs2 d = Some (Dir c0)"
        unfolding m2 map_of_snoc by simp
      ultimately show ?thesis by blast
    qed
  next
    fix f assume "f \<in> fst ` set ?ms"
    with srcs_sub have "f \<in> set (listdir fs)" by blast
    then obtain v where "map_of fs f = Some v" by (auto simp: in_listdir_iff)
    then show "map_of fs2 f \<noteq> None" unfolding m2 map_of_snoc by simp
  next
    fix m assume a: "m \<in> set ?ms" "fst m \<in> snd ` set ?ms"
    from a(2) ext_moves_snd have "fst m \<in> set ?exts" by blast
    from file_exts_token [OF this] have "last4 (fst m) = fst m" by simp
    with ext_moves_entry [OF a(1)] show "fst m = snd m" by simp
  qed
  from moves_ready_succeeds [OF ready] obtain fs3 where
    mv: "moves ?ms fs2 = Inr fs3" by blast
  then have p2: "move_files ?files ?exts fs2 = Inr fs3"
    by (simp add: move_files_as_moves [OF file_exts_distinct])
  have d3: "distinct (listdir fs3)" by (rule moves_distinct [OF mv d2])
  from after_ext_moves [OF p1 p2 others_no_token] none
  have o3: "map_of fs3 (ascii ''others'') = Some (Dir [])"
    unfolding map_of_snoc by simp
  let ?misc = "filter (\<lambda>x. x \<notin> set ?exts) (listdir fs3)"
  let ?mm = "map (\<lambda>f. (f, (ascii ''others''))) ?misc"
  have ready3: "moves_ready ?mm fs3"
    unfolding moves_ready_def
  proof (intro conjI ballI impI)
    have "map fst ?mm = ?misc" by (simp add: comp_def)
    with d3 show "distinct (map fst ?mm)" by simp
  next
    fix d assume "d \<in> snd ` set ?mm"
    then have "d = (ascii ''others'')" by auto
    with o3 show "\<exists>cs. map_of fs3 d = Some (Dir cs) \<and> set (listdir cs) \<inter> fst ` set ?mm = {}"
      by (simp add: listdir_def)
  next
    fix f assume "f \<in> fst ` set ?mm"
    then have "f \<in> set (listdir fs3)" by auto
    then show "map_of fs3 f \<noteq> None" by (simp add: in_listdir_iff)
  next
    fix m assume a: "m \<in> set ?mm" "fst m \<in> snd ` set ?mm"
    from a(2) have "fst m = (ascii ''others'')" by auto
    moreover from a(1) have "snd m = (ascii ''others'')" by auto
    ultimately show "fst m = snd m" by simp
  qed
  from moves_ready_succeeds [OF ready3] obtain fs' where
    "moves ?mm fs3 = Inr fs'" by blast
  then have p3: "move_misc ?misc fs3 = Inr fs'"
    by (simp add: move_misc_as_moves)
  have "makedirs fs (ascii ''others'') = Inr ?fs1"
    using fresh component_others by (simp add: makedirs_Inr)
  with p1 p2 p3 l1 have "arrange_files fs (ascii ''others'') = Inr fs'"
    by (simp add: arrange_files_def Let_def)
  then show ?thesis by blast
qed

subsection \<open>The claims about arrange_files\<close>

text \<open>The example of the specification, with the default name: the run ends.\<close>

lemma arrange_files_example:
  "arrange_files example_directory (ascii ''others'')
   = Inr [(ascii ''others'', Dir [(ascii ''readme'', File ''R'')]),
          (ascii ''.txt'', Dir [(ascii ''a.txt'', File ''A''), (ascii ''b.txt'', File ''B'')]),
          (ascii ''.csv'', Dir [(ascii ''c.csv'', File ''C'')])]"
  by code_simp

text \<open>The empty name: \<open>os.makedirs\<close> is handed the directory itself, and raises at
  once.\<close>

lemma empty_name_raises: "arrange_files fs [] = Inl (FileExistsError, fs)"
  by (simp add: arrange_files_def makedirs_def)

text \<open>A letter beyond ASCII: \<open>a.d\<close>, code point 244, \<open>c\<close> has the token of its last
  four code points.\<close>

lemma letter_beyond_ascii:
  "file_exts [[97, 46, 100, 244, 99], ascii ''others''] = [[46, 100, 244, 99]]"
  by code_simp

text \<open>
  C2, at a directory that holds an empty directory \<open>others\<close> and a file \<open>readme\<close>,
  arranged with \<open>misc_folder_name = "new_others"\<close>: the run ends without an exception,
  and \<open>readme\<close> is in \<open>others\<close>, as is the directory \<open>new_others\<close> the run created;
  nothing is in a directory named \<open>new_others\<close> of the arranged directory.
\<close>

theorem misc_files_go_to_literal_others:
  "arrange_files [(ascii ''others'', Dir []), (ascii ''readme'', File ''R'')] (ascii ''new_others'')
   = Inr [(ascii ''others'',
           Dir [(ascii ''readme'', File ''R''), (ascii ''new_others'', Dir [])])]"
  by code_simp

text \<open>
  C4, at the empty directory arranged twice with \<open>misc_folder_name = "new_others"\<close>: the
  first run renames the directory it created to \<open>others\<close>, so the second run finds no
  \<open>new_others\<close>, raises nothing and changes the directory again.
\<close>

theorem second_run_does_not_raise:
  "arrange_files [] (ascii ''new_others'') = Inr [(ascii ''others'', Dir [])]
   \<and> arrange_files [(ascii ''others'', Dir [])] (ascii ''new_others'')
     = Inr [(ascii ''others'', Dir [(ascii ''new_others'', Dir [])])]"
  by code_simp

text \<open>
  C5, at a directory with the two files \<open>a.123\<close> and \<open>b.123\<close>: the suffix \<open>.123\<close>
  is listed twice, the loop of lines 46 to 51 removes the first copy and steps over the
  second, so \<open>.123\<close> stays an extension token, its directory is created and both files
  are moved into it.
\<close>

theorem digits_suffix_gets_a_folder:
  "file_exts [ascii ''a.123'', ascii ''b.123'', ascii ''others''] = [ascii ''.123'']
   \<and> arrange_files [(ascii ''a.123'', File ''A''), (ascii ''b.123'', File ''B'')] (ascii ''others'')
     = Inr [(ascii ''others'', Dir []),
            (ascii ''.123'', Dir [(ascii ''a.123'', File ''A''), (ascii ''b.123'', File ''B'')])]"
  by code_simp

text \<open>
  C3 as stated fails in three ways. On the example directory there is no entry \<open>txt\<close>
  and no entry \<open>csv\<close> after the run: the directories that hold the files are \<open>.txt\<close>
  and \<open>.csv\<close>. Where the token names a regular file, \<open>.env\<close> beside \<open>a.env\<close>, no
  directory is made for it: \<open>a.env\<close> is renamed onto \<open>.env\<close> and replaces it. And
  where the directory \<open>.txt\<close> exists and holds an \<open>a.txt\<close> of its own, the run fails:
  the move of \<open>a.txt\<close> raises \<open>shutil.Error\<close>.
\<close>

theorem folder_name_keeps_dot_counterexample:
  "arrange_files example_directory (ascii ''others'')
   = Inr [(ascii ''others'', Dir [(ascii ''readme'', File ''R'')]),
          (ascii ''.txt'', Dir [(ascii ''a.txt'', File ''A''), (ascii ''b.txt'', File ''B'')]),
          (ascii ''.csv'', Dir [(ascii ''c.csv'', File ''C'')])]
   \<and> map_of [(ascii ''others'', Dir [(ascii ''readme'', File ''R'')]),
          (ascii ''.txt'', Dir [(ascii ''a.txt'', File ''A''), (ascii ''b.txt'', File ''B'')]),
          (ascii ''.csv'', Dir [(ascii ''c.csv'', File ''C'')])] (ascii ''txt'') = None
   \<and> map_of [(ascii ''others'', Dir [(ascii ''readme'', File ''R'')]),
          (ascii ''.txt'', Dir [(ascii ''a.txt'', File ''A''), (ascii ''b.txt'', File ''B'')]),
          (ascii ''.csv'', Dir [(ascii ''c.csv'', File ''C'')])] (ascii ''csv'') = None
   \<and> arrange_files [(ascii ''.env'', File ''E''), (ascii ''a.env'', File ''A'')] (ascii ''others'')
     = Inr [(ascii ''.env'', File ''A''), (ascii ''others'', Dir [])]
   \<and> arrange_files
       [(ascii ''.txt'', Dir [(ascii ''a.txt'', File ''O'')]), (ascii ''a.txt'', File ''A'')]
       (ascii ''others'')
     = Inl (ShutilError,
            [(ascii ''.txt'', Dir [(ascii ''a.txt'', File ''O'')]), (ascii ''a.txt'', File ''A''),
             (ascii ''others'', Dir [])])"
  by code_simp

lemma dot_is_no_letter: "\<not> is_letter 46"
  by code_simp

lemma valid_token_not_dots:
  assumes "isalpha (drop 1 e)"
  shows "e \<noteq> [] \<and> e \<noteq> ascii ''.'' \<and> e \<noteq> ascii ''..''"
  using assms dot_is_no_letter by (auto simp: isalpha_def ascii_def)

text \<open>
  C3, as the code has it. Let \<open>e\<close> be a valid extension token found in the directory: the
  last four characters of a listed name, a dot and then letters only. Let \<open>e\<close> not be the
  name of a regular file of the directory. Then \<open>e\<close> is one of the tokens of the run, and
  after a run that ends the entry named \<open>e\<close> itself, the dot included, is a directory,
  and it holds every entry of the directory whose last four characters are \<open>e\<close>, the
  directory \<open>e\<close> itself apart. The loop that creates the directories does not fail at an
  entry \<open>e\<close> that exists already: it goes on with the tokens that follow. On the example
  directory, \<open>.txt\<close> holds \<open>a.txt\<close> and \<open>b.txt\<close>, and \<open>.csv\<close> holds \<open>c.csv\<close>.
\<close>

theorem ext_folder_keeps_dot:
  assumes run: "arrange_files fs misc = Inr fs'"
    and found: "e \<in> last4 ` set (listdir fs @ [misc])"
    and dot: "starts_with_dot e"
    and alpha: "isalpha (drop 1 e)"
    and nofile: "\<not> isfile fs e"
  shows "e \<in> set (file_exts (listdir fs @ [misc]))
    \<and> (\<exists>cs. map_of fs' e = Some (Dir cs)
          \<and> (\<forall>n x. map_of fs n = Some x \<and> last4 n = e \<and> n \<noteq> e \<longrightarrow> map_of cs n = Some x))
    \<and> (\<forall>rest s. e \<in> set (listdir s) \<longrightarrow>
          make_ext_folders (e # rest) s = make_ext_folders rest s)
    \<and> arrange_files example_directory (ascii ''others'')
        = Inr [(ascii ''others'', Dir [(ascii ''readme'', File ''R'')]),
               (ascii ''.txt'',
                Dir [(ascii ''a.txt'', File ''A''), (ascii ''b.txt'', File ''B'')]),
               (ascii ''.csv'', Dir [(ascii ''c.csv'', File ''C'')])]"
proof -
  let ?files = "listdir fs @ [misc]"
  let ?exts = "file_exts ?files"
  from found obtain f where f: "f \<in> set ?files" "last4 f = e" by auto
  from valid_token_found [OF f(1)] f(2) dot alpha have tok: "e \<in> set ?exts" by simp
  from arrange_files_phases [OF run] obtain fs2 fs3 where
    p1: "make_ext_folders ?exts (fs @ [(misc, Dir [])]) = Inr fs2" and
    p2: "move_files ?files ?exts fs2 = Inr fs3" and
    p3: "move_misc (filter (\<lambda>x. x \<notin> set ?exts) (listdir fs3)) fs3 = Inr fs'"
    by blast
  have d: "distinct ?exts" by (rule file_exts_distinct)
  have idem: "\<forall>t\<in>set ?exts. last4 t = t" using file_exts_token by blast
  note m2 = make_ext_folders_result [OF p1]
  note nd = valid_token_not_dots [OF alpha]
  have "\<exists>c0. map_of fs2 e = Some (Dir c0)"
  proof (cases "map_of fs e")
    case None
    then show ?thesis unfolding m2 map_of_snoc using tok nd by simp
  next
    case (Some v)
    with nofile obtain c0 where "v = Dir c0"
      by (cases v) (auto simp: isfile_def)
    with Some show ?thesis unfolding m2 map_of_snoc by simp
  qed
  then obtain c0 where b2: "map_of fs2 e = Some (Dir c0)" by blast
  from move_files_bucket [OF d idem tok p2 b2] obtain c1 where
    b3: "map_of fs3 e = Some (Dir (c0 @ c1))" by blast
  have "e \<notin> set (filter (\<lambda>x. x \<notin> set ?exts) (listdir fs3))" using tok by simp
  moreover have "e \<noteq> ascii ''others''" using tok by (rule token_not_others)
  ultimately have same: "map_of fs' e = map_of fs3 e"
    using move_misc_other [OF p3] by blast
  have holds: "map_of (c0 @ c1) n = Some x"
    if n: "map_of fs n = Some x" "last4 n = e" "n \<noteq> e" for n x
  proof -
    from n(1) have "n \<in> set (listdir fs)" by (simp add: in_listdir_iff)
    then have mem: "n \<in> set ?files" by simp
    have n2: "map_of fs2 n = Some x"
      unfolding m2 map_of_snoc using n(1) by simp
    from tok n(2) have tn: "last4 n \<in> set ?exts" by simp
    from n(2,3) have ne: "n \<noteq> last4 n" by simp
    from b2 n(2) have bn: "map_of fs2 (last4 n) = Some (Dir c0)" by simp
    from move_files_moves [OF d idem tn ne p2 mem bn n2] obtain cs where
      "map_of fs3 (last4 n) = Some (Dir cs)" "map_of cs n = Some x" by blast
    with b3 n(2) show ?thesis by simp
  qed
  have ex: "arrange_files example_directory (ascii ''others'')
        = Inr [(ascii ''others'', Dir [(ascii ''readme'', File ''R'')]),
               (ascii ''.txt'',
                Dir [(ascii ''a.txt'', File ''A''), (ascii ''b.txt'', File ''B'')]),
               (ascii ''.csv'', Dir [(ascii ''c.csv'', File ''C'')])]"
    by code_simp
  from same b3 holds have "\<exists>cs. map_of fs' e = Some (Dir cs)
          \<and> (\<forall>n x. map_of fs n = Some x \<and> last4 n = e \<and> n \<noteq> e \<longrightarrow> map_of cs n = Some x)"
    by auto
  with tok make_ext_folders_tolerant ex show ?thesis by blast
qed

text \<open>The theorem at a directory that already has \<open>.txt\<close>, a directory holding
  \<open>old.txt\<close>: the run ends, and \<open>.txt\<close> holds \<open>old.txt\<close> and \<open>a.txt\<close>.\<close>

theorem ext_folder_keeps_dot_witness:
  "arrange_files
     [(ascii ''.txt'', Dir [(ascii ''old.txt'', File ''O'')]), (ascii ''a.txt'', File ''A''),
      (ascii ''c.csv'', File ''C''), (ascii ''readme'', File ''R'')] (ascii ''others'')
   = Inr [(ascii ''.txt'', Dir [(ascii ''old.txt'', File ''O''), (ascii ''a.txt'', File ''A'')]),
          (ascii ''others'', Dir [(ascii ''readme'', File ''R'')]),
          (ascii ''.csv'', Dir [(ascii ''c.csv'', File ''C'')])]
   \<and> starts_with_dot (ascii ''.txt'') \<and> isalpha (drop 1 (ascii ''.txt''))
   \<and> last4 (ascii ''a.txt'') = ascii ''.txt''
   \<and> ascii ''.txt'' \<in> set (file_exts (listdir
        [(ascii ''.txt'', Dir [(ascii ''old.txt'', File ''O'')]), (ascii ''a.txt'', File ''A''),
         (ascii ''c.csv'', File ''C''), (ascii ''readme'', File ''R'')] @ [ascii ''others'']))
   \<and> (\<exists>cs. map_of
          [(ascii ''.txt'', Dir [(ascii ''old.txt'', File ''O''), (ascii ''a.txt'', File ''A'')]),
           (ascii ''others'', Dir [(ascii ''readme'', File ''R'')]),
           (ascii ''.csv'', Dir [(ascii ''c.csv'', File ''C'')])] (ascii ''.txt'') = Some (Dir cs)
         \<and> map_of cs (ascii ''a.txt'') = Some (File ''A''))"
proof -
  let ?d = "[(ascii ''.txt'', Dir [(ascii ''old.txt'', File ''O'')]), (ascii ''a.txt'', File ''A''),
      (ascii ''c.csv'', File ''C''), (ascii ''readme'', File ''R'')]"
  let ?r = "[(ascii ''.txt'', Dir [(ascii ''old.txt'', File ''O''), (ascii ''a.txt'', File ''A'')]),
          (ascii ''others'', Dir [(ascii ''readme'', File ''R'')]),
          (ascii ''.csv'', Dir [(ascii ''c.csv'', File ''C'')])]"
  have h1: "arrange_files ?d (ascii ''others'') = Inr ?r" by code_simp
  have l: "last4 (ascii ''a.txt'') = ascii ''.txt''" by code_simp
  have h2: "ascii ''.txt'' \<in> last4 ` set (listdir ?d @ [ascii ''others''])"
    by (simp add: listdir_def l)
  have h3: "starts_with_dot (ascii ''.txt'')" by code_simp
  have h4: "isalpha (drop 1 (ascii ''.txt''))" by code_simp
  have h5: "\<not> isfile ?d (ascii ''.txt'')" by code_simp
  have e: "map_of ?d (ascii ''a.txt'') = Some (File ''A'')" by code_simp
  have ne: "ascii ''a.txt'' \<noteq> ascii ''.txt''" by code_simp
  note t = ext_folder_keeps_dot [OF h1 h2 h3 h4 h5]
  from t have tok: "ascii ''.txt'' \<in> set (file_exts (listdir ?d @ [ascii ''others'']))"
    by blast
  from t obtain cs where
    c: "map_of ?r (ascii ''.txt'') = Some (Dir cs)" and
    a: "\<forall>n x. map_of ?d n = Some x \<and> last4 n = ascii ''.txt'' \<and> n \<noteq> ascii ''.txt''
          \<longrightarrow> map_of cs n = Some x"
    by blast
  from a e l ne have "map_of cs (ascii ''a.txt'') = Some (File ''A'')" by blast
  with c have "\<exists>cs. map_of ?r (ascii ''.txt'') = Some (Dir cs)
         \<and> map_of cs (ascii ''a.txt'') = Some (File ''A'')" by blast
  with h1 h3 h4 l tok show ?thesis by blast
qed


section \<open>Properties of convert_to_array\<close>

lemmas conv_defs = convert_one_def isinstance_def issubclass_def yield_def yield_or_raise_def
  np_array_of_type_def np_array_object_def overflows_def






text \<open>
  C6 as stated fails at two scalars of the kinds it names. \<open>np.uint8(5)\<close> is an 8-bit
  integer: no test of lines 83 to 93 takes it, and it gets an object array and a warning.
  \<open>2**63\<close> is an integer: \<open>np.array([2**63], dtype=int)\<close> raises OverflowError.
\<close>

theorem scalar_kinds_counterexample:
  "convert_to_array [NpUInt8 5]
     = ([(NdArray DT_object [NpUInt8 5], Some (UserWarning T_np_uint8))], None)
   \<and> convert_to_array [PyInt 9223372036854775808] = ([], Some OverflowError)"
  by (simp add: conv_defs c_long_def)

text \<open>
  C6, as the code has it. For a scalar \<open>x\<close> whose class is \<open>bool\<close>, \<open>int\<close>,
  \<open>float\<close>, \<open>str\<close>, \<open>np.bool_\<close>, \<open>np.int8/16/32/64\<close> or \<open>np.float16/32/64\<close>,
  an \<open>int\<close> being in the range of a C long, the function yields one array of one
  element, \<open>x\<close>, whose element type is the class of \<open>x\<close> itself, with no warning and no
  exception: a \<open>np.int8\<close> gives an array of \<open>np.int8\<close>.
\<close>

theorem scalar_keeps_exact_type:
  assumes "type_of x \<in> set [T_bool, T_int, T_float, T_str, T_np_bool,
             T_np_int8, T_np_int16, T_np_int32, T_np_int64,
             T_np_float16, T_np_float32, T_np_float64]"
    and "\<not> overflows x"
  shows "convert_to_array [x] = ([(NdArray (DT_type (type_of x)) [x], None)], None)"
  using assms by (cases x) (simp_all add: conv_defs)

theorem scalar_keeps_exact_type_witness:
  "type_of (NpInt8 5) \<in> set [T_bool, T_int, T_float, T_str, T_np_bool,
             T_np_int8, T_np_int16, T_np_int32, T_np_int64,
             T_np_float16, T_np_float32, T_np_float64]
   \<and> \<not> overflows (NpInt8 5)
   \<and> convert_to_array [NpInt8 5] = ([(NdArray (DT_type T_np_int8) [NpInt8 5], None)], None)"
proof -
  have a: "type_of (NpInt8 5) \<in> set [T_bool, T_int, T_float, T_str, T_np_bool,
             T_np_int8, T_np_int16, T_np_int32, T_np_int64,
             T_np_float16, T_np_float32, T_np_float64]" by simp
  have b: "\<not> overflows (NpInt8 5)" by (simp add: overflows_def)
  from scalar_keeps_exact_type [OF a b] a b show ?thesis by simp
qed



text \<open>
  C8. A calendar date gives one array of one element, of the day unit, holding the year,
  month and day of the date and no time of day, with no warning and no exception. The test
  for a date is the first of the chain: whatever else an instance of \<open>date\<close> is, it takes
  this branch.
\<close>

theorem date_gives_day_array:
  "convert_to_array [PyDate y m d]
     = ([(NdArray DT_datetime64_D [NpDatetime64 y m d 0], None)], None)
   \<and> (isinstance x [T_date] \<longrightarrow>
        convert_one x = ([(NdArray DT_datetime64_D (strftime_day x), None)], None))"
  by (simp add: conv_defs)

theorem date_gives_day_array_witness:
  "convert_to_array [PyDate 2019 1 1]
     = ([(NdArray DT_datetime64_D [NpDatetime64 2019 1 1 0], None)], None)
   \<and> isinstance (PyDate 2019 1 1) [T_date]
   \<and> convert_one (PyDate 2019 1 1)
     = ([(NdArray DT_datetime64_D (strftime_day (PyDate 2019 1 1)), None)], None)"
  using date_gives_day_array [of 2019 1 1 "PyDate 2019 1 1"]
  by (simp add: isinstance_def issubclass_def)




text \<open>
  C10. A datetime, which carries a time of day, is an instance of \<open>date\<close>: it takes the
  date branch and gives one array of one element, of the day unit, holding its year, month
  and day. Hour, minute, second and microsecond are dropped, and nothing is warned or
  raised.
\<close>

theorem datetime_takes_date_branch:
  "isinstance (PyDatetime y m d hh mm ss us) [T_date]
   \<and> convert_to_array [PyDatetime y m d hh mm ss us]
     = ([(NdArray DT_datetime64_D [NpDatetime64 y m d 0], None)], None)"
  by (simp add: conv_defs)


end
